theory Spec2Isabelle
  imports Main "HOL-Library.Word"
begin

unbundle bit_operations_syntax

section \<open>Bytes, exceptions and the wire header\<close>

type_synonym byte = "8 word"
type_synonym bytes = "byte list"

text \<open>
  The exceptions that \<^verbatim>\<open>main.py\<close> distinguishes in its handlers. Everything that is
  only caught by a bare \<^verbatim>\<open>except Exception\<close> is \<open>OtherError\<close> with its message.
\<close>

datatype exn =
    StructError
  | SocketTimeout
  | ConnectionResetError
  | BrokenPipeError
  | UnicodeEncodeError
  | UnicodeDecodeError
  | WaitTimeoutError
  | UnknownValueError
  | RequestError
  | OtherError string

text \<open>
  \<^verbatim>\<open>struct.pack("!BQ", tag, size)\<close>: network byte order, no padding, one unsigned byte
  followed by one unsigned 64-bit integer, most significant byte first. \<open>be_bytes k n\<close> are
  the \<open>k\<close> low-order base-256 digits of \<open>n\<close>, most significant first; \<open>be_value\<close> reads such
  digits back.
\<close>

fun be_bytes :: "nat \<Rightarrow> nat \<Rightarrow> bytes" where
  "be_bytes 0 n = []"
| "be_bytes (Suc k) n = be_bytes k (n div 256) @ [of_nat (n mod 256)]"

definition be_value :: "bytes \<Rightarrow> nat" where
  "be_value bs = foldl (\<lambda>acc b. acc * 256 + unat b) 0 bs"

text \<open>
  \<^verbatim>\<open>struct.pack\<close> raises \<^verbatim>\<open>struct.error\<close> when an argument does not fit its field;
  \<^verbatim>\<open>struct.unpack\<close> raises it when the buffer is not exactly 9 bytes long.
\<close>

definition pack_BQ :: "nat \<Rightarrow> nat \<Rightarrow> exn + bytes" where
  "pack_BQ t n =
     (if 255 < t \<or> 2 ^ 64 \<le> n then Inl StructError
      else Inr (be_bytes 1 t @ be_bytes 8 n))"

definition unpack_BQ :: "bytes \<Rightarrow> exn + (nat \<times> nat)" where
  "unpack_BQ h =
     (if length h \<noteq> 9 then Inl StructError
      else Inr (be_value (take 1 h), be_value (drop 1 h)))"

text \<open>
  The bytes handed to \<^verbatim>\<open>sendall\<close> for one message (lines 238-239 and 243-244):
  \<^verbatim>\<open>struct.pack("!BQ", tag, len(data)) + data\<close>.
\<close>

definition encode :: "nat \<Rightarrow> bytes \<Rightarrow> exn + bytes" where
  "encode t payload =
     (case pack_BQ t (length payload) of
        Inl e \<Rightarrow> Inl e
      | Inr header \<Rightarrow> Inr (header @ payload))"

section \<open>UTF-8\<close>

text \<open>
  A Python \<^verbatim>\<open>str\<close> is a sequence of code points. \<^verbatim>\<open>str.encode('utf-8')\<close> raises
  \<^verbatim>\<open>UnicodeEncodeError\<close> on a lone surrogate; \<^verbatim>\<open>bytes.decode('utf-8')\<close> is strict and
  raises \<^verbatim>\<open>UnicodeDecodeError\<close> on a bad lead byte, a missing continuation byte, an
  overlong form, a surrogate or a value above \<open>0x10FFFF\<close>.
\<close>

type_synonym pystr = "nat list"

definition utf8_char :: "nat \<Rightarrow> bytes option" where
  "utf8_char c =
     (if c < 0x80 then Some [of_nat c]
      else if c < 0x800 then Some [of_nat (0xC0 + c div 64), of_nat (0x80 + c mod 64)]
      else if 0xD800 \<le> c \<and> c \<le> 0xDFFF then None
      else if c < 0x10000 then
        Some [of_nat (0xE0 + c div 4096), of_nat (0x80 + c div 64 mod 64),
              of_nat (0x80 + c mod 64)]
      else if c < 0x110000 then
        Some [of_nat (0xF0 + c div 262144), of_nat (0x80 + c div 4096 mod 64),
              of_nat (0x80 + c div 64 mod 64), of_nat (0x80 + c mod 64)]
      else None)"

fun utf8_encode :: "pystr \<Rightarrow> exn + bytes" where
  "utf8_encode [] = Inr []"
| "utf8_encode (c # cs) =
     (case utf8_char c of
        None \<Rightarrow> Inl UnicodeEncodeError
      | Some bs \<Rightarrow>
          (case utf8_encode cs of Inl e \<Rightarrow> Inl e | Inr rest \<Rightarrow> Inr (bs @ rest)))"

text \<open>
  The decoder walks the bytes once. \<open>utf8_scan k lo acc\<close> still expects \<open>k\<close> continuation
  bytes of a code point whose bits so far are \<open>acc\<close> and whose encoded length is only legal
  for code points from \<open>lo\<close> on.
\<close>

fun utf8_scan :: "nat \<Rightarrow> nat \<Rightarrow> nat \<Rightarrow> bytes \<Rightarrow> exn + pystr" where
  "utf8_scan k lo acc [] = (if k = 0 then Inr [] else Inl UnicodeDecodeError)"
| "utf8_scan k lo acc (b # bs) =
     (let n = unat b in
      if k = 0 then
        (if n < 0x80 then
           (case utf8_scan 0 0 0 bs of Inl e \<Rightarrow> Inl e | Inr cs \<Rightarrow> Inr (n # cs))
         else if 0xC2 \<le> n \<and> n \<le> 0xDF then utf8_scan 1 0x80 (n - 0xC0) bs
         else if 0xE0 \<le> n \<and> n \<le> 0xEF then utf8_scan 2 0x800 (n - 0xE0) bs
         else if 0xF0 \<le> n \<and> n \<le> 0xF4 then utf8_scan 3 0x10000 (n - 0xF0) bs
         else Inl UnicodeDecodeError)
      else if 0x80 \<le> n \<and> n \<le> 0xBF then
        (let c = acc * 64 + (n - 0x80) in
         if k = 1 then
           (if c < lo \<or> (0xD800 \<le> c \<and> c \<le> 0xDFFF) \<or> 0x10FFFF < c
            then Inl UnicodeDecodeError
            else (case utf8_scan 0 0 0 bs of Inl e \<Rightarrow> Inl e | Inr cs \<Rightarrow> Inr (c # cs)))
         else utf8_scan (k - 1) lo c bs)
      else Inl UnicodeDecodeError)"

definition utf8_decode :: "bytes \<Rightarrow> exn + pystr" where
  "utf8_decode bs = utf8_scan 0 0 0 bs"

section \<open>The object, its collaborators and the outside world\<close>

text \<open>
  \<^verbatim>\<open>network_queue\<close> holds the tuples \<^verbatim>\<open>('video', frame)\<close> and \<^verbatim>\<open>('text', text)\<close>.
\<close>

datatype 'f net_item = Video 'f | Text pystr

datatype sock = Listener | Accepted | Client

datatype sock_op =
    SockNew sock
  | SetReuseAddr
  | Bind string nat
  | Listen
  | Accept
  | Connect string nat
  | SetTimeout
  | SendAll bytes
  | Recv nat
  | Close sock

datatype overlay = Original pystr | Translated pystr

datatype window = VideoTranslator | RemoteVideo

text \<open>
  The calls to devices and libraries that the program makes, recorded in the order it makes
  them.
\<close>

datatype ('a, 'f) call =
    MicListen
  | RecognizeGoogle 'a string
  | Translate pystr string string
  | GTTS pystr string
  | MixerLoad bytes
  | MixerPlay
  | CapRead
  | PutText overlay
  | Imshow window 'f
  | WaitKey
  | CapRelease
  | DestroyAllWindows
  | PygameQuit
  | PickleLoads bytes
  | Utf8Decode bytes
  | Sock sock_op

text \<open>The lines the program prints.\<close>

datatype log_line =
    AudioCaptureError exn
  | SpeechRecognitionError exn
  | RecognitionError exn
  | TranslationError exn
  | FailedToCaptureFrame
  | WaitingForConnection string nat
  | ConnectedTo
  | Connecting string nat
  | ConnectedToHost
  | SendError exn
  | ReceivedText pystr
  | FrameUnpicklingError exn
  | TextDecodeError exn
  | ReceiveError exn
  | NetworkSetupError exn
  | NetworkConnectionClosed
  | ProgramShutdownComplete

text \<open>What the connected socket delivers, in order: bytes, end of stream, or an exception.\<close>

datatype recv_event = Data bytes | Eof | Raise exn

text \<open>
  How a \<^verbatim>\<open>sendall\<close> on the connected socket ends. The socket has a timeout of 0.1 s and
  \<^verbatim>\<open>sendall\<close> writes piece by piece, so when it raises, a prefix of its argument may
  already be on the stream: \<open>Interrupted k e\<close> raises \<open>e\<close> after \<open>k\<close> bytes have been written.
\<close>

datatype sending = Delivered | Interrupted nat exn

text \<open>
  What \<^verbatim>\<open>pickle.loads\<close> does with a payload: it returns an object, it raises an exception
  that \<^verbatim>\<open>except Exception\<close> catches, or it raises one that is no \<^verbatim>\<open>Exception\<close>
  (\<^verbatim>\<open>SystemExit\<close>, \<^verbatim>\<open>KeyboardInterrupt\<close>), which no handler of the program catches.
\<close>

datatype 'f unpickled = Unpickled 'f | UnpickleError exn | UnpickleExit

text \<open>
  The fields of \<^verbatim>\<open>VideoCallTranslator\<close> that the threads use, followed by the world around
  it: what the microphone, the camera, the keyboard and the peer will deliver (\<open>mic\<close>,
  \<open>camera\<close>, \<open>keys\<close>, \<open>inbox\<close>), how the coming \<^verbatim>\<open>sendall\<close> calls end (\<open>send_script\<close>), the
  bytes written to the stream so far (\<open>wire\<close>), the calls made so far (\<open>trace\<close>) and the
  lines printed so far (\<open>out\<close>). A
  \<^verbatim>\<open>queue.Queue\<close> is a list: \<^verbatim>\<open>put\<close> appends, \<^verbatim>\<open>get\<close> takes the head, \<^verbatim>\<open>.queue[-1]\<close>
  is the last element.
\<close>

record ('a, 'f) vct =
  audio_queue :: "'a list"
  text_queue :: "pystr list"
  translation_queue :: "pystr list"
  network_queue :: "'f net_item list"
  source_lang :: string
  target_lang :: string
  running :: bool
  translating :: bool
  in_call :: bool
  is_host :: bool
  socket :: "sock option"
  connection :: "sock option"
  host :: string
  port :: nat
  remote_frame :: "'f option"
  mic :: "(exn + 'a) list"
  camera :: "'f option list"
  keys :: "int list"
  inbox :: "recv_event list"
  send_script :: "sending list"
  wire :: bytes
  trace :: "('a, 'f) call list"
  out :: "log_line list"

text \<open>
  The libraries the program calls are parameters: the speech recogniser, the translator, the
  synthesiser and mixer, \<^verbatim>\<open>pickle\<close>, and the two \<^verbatim>\<open>cv2\<close> functions that build frames.
  \<^verbatim>\<open>pickle.loads\<close> runs the constructors that the payload names, with the arguments the
  payload gives, inside the process: what it does to the object is chosen by the peer, so
  \<open>pickle_loads\<close> takes the state and returns it together with its result. \<open>fault\<close> says
  which of the set-up and tear-down calls raise.
\<close>

record ('a, 'f) env =
  recognize_google :: "'a \<Rightarrow> string \<Rightarrow> exn + pystr"
  translate :: "pystr \<Rightarrow> string \<Rightarrow> string \<Rightarrow> exn + pystr"
  synthesize :: "pystr \<Rightarrow> string \<Rightarrow> exn + bytes"
  mixer_load :: "bytes \<Rightarrow> exn option"
  mixer_play :: "exn option"
  pickle_dumps :: "'f \<Rightarrow> exn + bytes"
  pickle_loads :: "bytes \<Rightarrow> ('a, 'f) vct \<Rightarrow> 'f unpickled \<times> ('a, 'f) vct"
  resize :: "'f \<Rightarrow> 'f"
  put_text :: "'f \<Rightarrow> overlay \<Rightarrow> 'f"
  fault :: "('a, 'f) call \<Rightarrow> exn option"

definition called :: "('a, 'f) call \<Rightarrow> ('a, 'f) vct \<Rightarrow> ('a, 'f) vct" where
  "called c s = s\<lparr>trace := trace s @ [c]\<rparr>"

definition print :: "log_line \<Rightarrow> ('a, 'f) vct \<Rightarrow> ('a, 'f) vct" where
  "print l s = s\<lparr>out := out s @ [l]\<rparr>"

section \<open>The capture, recognition, translation and video stages\<close>

text \<open>
  Each stage is a \<^verbatim>\<open>while self.running\<close> loop in a thread of its own. The functions below
  are one pass through the body of each loop, from a state in which the loop test succeeded.
\<close>

text \<open>
  \<^verbatim>\<open>audio_capture_thread\<close>, lines 120-127. A microphone with nothing more to deliver times
  out.
\<close>

definition audio_capture_step :: "('a, 'f) vct \<Rightarrow> ('a, 'f) vct" where
  "audio_capture_step s =
     (let s1 = called MicListen s in
      case mic s1 of
        [] \<Rightarrow> s1
      | r # rest \<Rightarrow>
          (let s2 = s1\<lparr>mic := rest\<rparr> in
           case r of
             Inr audio \<Rightarrow> s2\<lparr>audio_queue := audio_queue s2 @ [audio]\<rparr>
           | Inl e \<Rightarrow> if e = WaitTimeoutError then s2 else print (AudioCaptureError e) s2))"

text \<open>\<^verbatim>\<open>speech_recognition_thread\<close>, lines 132-144.\<close>

definition speech_recognition_step ::
  "('a, 'f) env \<Rightarrow> ('a, 'f) vct \<Rightarrow> ('a, 'f) vct" where
  "speech_recognition_step env s =
     (case audio_queue s of
        [] \<Rightarrow> s
      | audio # rest \<Rightarrow>
          (let s1 = called (RecognizeGoogle audio (source_lang s)) (s\<lparr>audio_queue := rest\<rparr>) in
           case recognize_google env audio (source_lang s) of
             Inr text \<Rightarrow>
               (let s2 = s1\<lparr>text_queue := text_queue s1 @ [text]\<rparr> in
                if in_call s2 then s2\<lparr>network_queue := network_queue s2 @ [Text text]\<rparr>
                else s2)
           | Inl e \<Rightarrow>
               if e = UnknownValueError then s1
               else if e = RequestError then print (SpeechRecognitionError e) s1
               else print (RecognitionError e) s1))"

text \<open>
  \<^verbatim>\<open>translation_thread\<close>, lines 149-166. \<open>synthesize\<close> stands for \<^verbatim>\<open>gTTS(...)\<close> together
  with \<^verbatim>\<open>write_to_fp\<close>, the two calls that produce the audio bytes.
\<close>

definition translation_step :: "('a, 'f) env \<Rightarrow> ('a, 'f) vct \<Rightarrow> ('a, 'f) vct" where
  "translation_step env s =
     (case text_queue s of
        [] \<Rightarrow> s
      | text # rest \<Rightarrow>
          (let s1 = s\<lparr>text_queue := rest\<rparr> in
           if translating s1 then
             (let s2 = called (Translate text (source_lang s1) (target_lang s1)) s1 in
              case translate env text (source_lang s1) (target_lang s1) of
                Inl e \<Rightarrow> print (TranslationError e) s2
              | Inr translation \<Rightarrow>
                  (let s3 = s2\<lparr>translation_queue := translation_queue s2 @ [translation]\<rparr>;
                       s4 = called (GTTS translation (target_lang s3)) s3 in
                   case synthesize env translation (target_lang s3) of
                     Inl e \<Rightarrow> print (TranslationError e) s4
                   | Inr fp \<Rightarrow>
                       (let s5 = called (MixerLoad fp) s4 in
                        case mixer_load env fp of
                          Some e \<Rightarrow> print (TranslationError e) s5
                        | None \<Rightarrow>
                            (let s6 = called MixerPlay s5 in
                             case mixer_play env of
                               Some e \<Rightarrow> print (TranslationError e) s6
                             | None \<Rightarrow> s6))))
           else s1))"

text \<open>
  \<^verbatim>\<open>video_capture_thread\<close>, lines 171-201. \<^verbatim>\<open>cv2.putText\<close> draws into the frame it is
  given, so the frame shown and sent is the one with the overlays. A camera with nothing
  more to deliver fails to capture; a keyboard with nothing pressed gives \<open>-1\<close>. The
  \<^verbatim>\<open>cv2\<close> calls are taken not to raise: the loop has no handler for them.
\<close>

definition overlay_text :: "('a, 'f) env \<Rightarrow> 'f \<Rightarrow> ('a, 'f) vct \<Rightarrow> 'f \<times> ('a, 'f) vct" where
  "overlay_text env frame s =
     (if text_queue s \<noteq> [] then
        (let text = last (text_queue s) in
         (put_text env frame (Original text), called (PutText (Original text)) s))
      else (frame, s))"

definition overlay_translation ::
  "('a, 'f) env \<Rightarrow> 'f \<Rightarrow> ('a, 'f) vct \<Rightarrow> 'f \<times> ('a, 'f) vct" where
  "overlay_translation env frame s =
     (if translation_queue s \<noteq> [] \<and> translating s then
        (let translation = last (translation_queue s) in
         (put_text env frame (Translated translation),
          called (PutText (Translated translation)) s))
      else (frame, s))"

definition wait_key :: "('a, 'f) vct \<Rightarrow> int \<times> ('a, 'f) vct" where
  "wait_key s =
     (let s1 = called WaitKey s in
      case keys s1 of [] \<Rightarrow> (- 1, s1) | k # rest \<Rightarrow> (k, s1\<lparr>keys := rest\<rparr>))"

definition cap_read :: "('a, 'f) vct \<Rightarrow> 'f option \<times> ('a, 'f) vct" where
  "cap_read s =
     (let s1 = called CapRead s in
      case camera s1 of [] \<Rightarrow> (None, s1) | r # rest \<Rightarrow> (r, s1\<lparr>camera := rest\<rparr>))"

text \<open>Lines 193-194, 197-198 and 200-201.\<close>

definition enqueue_frame :: "'f \<Rightarrow> ('a, 'f) vct \<Rightarrow> ('a, 'f) vct" where
  "enqueue_frame frame s =
     (if in_call s then s\<lparr>network_queue := network_queue s @ [Video frame]\<rparr> else s)"

definition show_remote :: "('a, 'f) vct \<Rightarrow> ('a, 'f) vct" where
  "show_remote s =
     (case remote_frame s of
        Some rf \<Rightarrow> called (Imshow RemoteVideo rf) s
      | None \<Rightarrow> s)"

definition check_quit :: "('a, 'f) vct \<Rightarrow> ('a, 'f) vct" where
  "check_quit s =
     (let (k, s1) = wait_key s in
      if k AND 0xFF = 113 then s1\<lparr>running := False\<rparr> else s1)"

definition video_capture_step :: "('a, 'f) env \<Rightarrow> ('a, 'f) vct \<Rightarrow> ('a, 'f) vct" where
  "video_capture_step env s =
     (case cap_read s of
        (None, s1) \<Rightarrow> print FailedToCaptureFrame s1
      | (Some raw, s1) \<Rightarrow>
          (let (frame1, s2) = overlay_text env (resize env raw) s1;
               (frame, s3) = overlay_translation env frame1 s2
           in check_quit (show_remote
                (enqueue_frame frame (called (Imshow VideoTranslator frame) s3)))))"

section \<open>The network thread\<close>

text \<open>
  \<^verbatim>\<open>recv(n)\<close> on the connected socket, whose timeout is 0.1 s: at most \<open>n\<close> of the bytes
  that have arrived, \<^verbatim>\<open>b''\<close> once the peer has closed the stream, \<^verbatim>\<open>socket.timeout\<close>
  when nothing arrives.
\<close>

fun recv_events :: "nat \<Rightarrow> recv_event list \<Rightarrow> (exn + bytes) \<times> recv_event list" where
  "recv_events n [] = (Inl SocketTimeout, [])"
| "recv_events n (Data bs # evs) =
     (if bs = [] then recv_events n evs
      else (Inr (take n bs), if drop n bs = [] then evs else Data (drop n bs) # evs))"
| "recv_events n (Eof # evs) = (Inr [], Eof # evs)"
| "recv_events n (Raise e # evs) = (Inl e, evs)"

definition sock_recv :: "nat \<Rightarrow> ('a, 'f) vct \<Rightarrow> (exn + bytes) \<times> ('a, 'f) vct" where
  "sock_recv n s =
     (let s1 = called (Sock (Recv n)) s;
          (r, evs) = recv_events n (inbox s1)
      in (r, s1\<lparr>inbox := evs\<rparr>))"

text \<open>
  \<^verbatim>\<open>sendall\<close>: the next entry of \<open>send_script\<close> says how it ends. When it returns, all of
  \<open>w\<close> has been written to the stream; when it raises after \<open>k\<close> bytes, the first \<open>k\<close> bytes
  of \<open>w\<close> have been written and stay there.
\<close>

definition sendall :: "bytes \<Rightarrow> ('a, 'f) vct \<Rightarrow> exn option \<times> ('a, 'f) vct" where
  "sendall w s =
     (let s1 = called (Sock (SendAll w)) s in
      case send_script s1 of
        [] \<Rightarrow> (None, s1\<lparr>wire := wire s1 @ w\<rparr>)
      | Delivered # rest \<Rightarrow> (None, s1\<lparr>send_script := rest, wire := wire s1 @ w\<rparr>)
      | Interrupted k e # rest \<Rightarrow>
          (Some e, s1\<lparr>send_script := rest, wire := wire s1 @ take k w\<rparr>))"

text \<open>
  How a part of the loop body ends: it falls through, it executes \<^verbatim>\<open>continue\<close>, it
  executes \<^verbatim>\<open>break\<close>, or an exception that is no \<^verbatim>\<open>Exception\<close> leaves it (\<open>Exit\<close>).
\<close>

datatype flow = Normal | Continue | Break | Exit

text \<open>The two handlers of the send block, lines 245-249.\<close>

definition send_handler :: "exn \<Rightarrow> ('a, 'f) vct \<Rightarrow> flow \<times> ('a, 'f) vct" where
  "send_handler e s =
     (if e = ConnectionResetError \<or> e = BrokenPipeError \<or> e = SocketTimeout then (Continue, s)
      else (Break, print (SendError e) s))"

text \<open>Lines 238-239 and 243-244: build the header and send header and data in one call.\<close>

definition send_framed :: "nat \<Rightarrow> bytes \<Rightarrow> ('a, 'f) vct \<Rightarrow> flow \<times> ('a, 'f) vct" where
  "send_framed t data s =
     (case pack_BQ t (length data) of
        Inl e \<Rightarrow> send_handler e s
      | Inr header \<Rightarrow>
          (case sendall (header @ data) s of
             (None, s1) \<Rightarrow> (Normal, s1)
           | (Some e, s1) \<Rightarrow> send_handler e s1))"

text \<open>The send block, lines 230-249.\<close>

definition send_part :: "('a, 'f) env \<Rightarrow> ('a, 'f) vct \<Rightarrow> flow \<times> ('a, 'f) vct" where
  "send_part env s =
     (case network_queue s of
        [] \<Rightarrow> (Normal, s)
      | item # rest \<Rightarrow>
          (let s1 = s\<lparr>network_queue := rest\<rparr> in
           case item of
             Video frame \<Rightarrow>
               (case pickle_dumps env frame of
                  Inl e \<Rightarrow> send_handler e s1
                | Inr data \<Rightarrow> send_framed 0 data s1)
           | Text text \<Rightarrow>
               (case utf8_encode text of
                  Inl e \<Rightarrow> send_handler e s1
                | Inr data \<Rightarrow> send_framed 1 data s1)))"

text \<open>The inner loop that collects the payload, lines 262-269.\<close>

function recv_payload ::
  "nat \<Rightarrow> nat \<Rightarrow> bytes list \<Rightarrow> ('a, 'f) vct \<Rightarrow> (exn + nat \<times> bytes list) \<times> ('a, 'f) vct"
  where
  "recv_payload msg_size received chunks s =
     (if received < msg_size then
        (case sock_recv (min (msg_size - received) 4096) s of
           (Inl e, s1) \<Rightarrow> (Inl e, s1)
         | (Inr chunk, s1) \<Rightarrow>
             if chunk = [] then (Inr (received, chunks), s1)
             else recv_payload msg_size (received + length chunk) (chunks @ [chunk]) s1)
      else (Inr (received, chunks), s))"
  by pat_completeness auto
termination
  by (relation "measure (\<lambda>(msg_size, received, chunks, s). msg_size - received)")
    (auto simp: neq_Nil_conv)

declare recv_payload.simps [simp del]

text \<open>
  \<open>recv_only s s'\<close>: the state \<open>s'\<close> differs from \<open>s\<close> at most by \<^verbatim>\<open>recv\<close> calls, that is,
  in what is still to arrive and in the calls recorded.
\<close>

definition recv_only :: "('a, 'f) vct \<Rightarrow> ('a, 'f) vct \<Rightarrow> bool" where
  "recv_only s s' \<longleftrightarrow>
     (\<exists>evs ns. s' = s\<lparr>inbox := evs, trace := trace s @ map (\<lambda>n. Sock (Recv n)) ns\<rparr>)"

text \<open>The three handlers of the receive block, lines 289-295.\<close>

definition receive_handler :: "exn \<Rightarrow> ('a, 'f) vct \<Rightarrow> flow \<times> ('a, 'f) vct" where
  "receive_handler e s =
     (if e = SocketTimeout then (Continue, s)
      else if e = StructError then (Continue, s)
      else (Break, print (ReceiveError e) s))"

text \<open>
  Lines 276-287: what is done with a complete payload. The assignment to
  \<^verbatim>\<open>self.remote_frame\<close> follows \<^verbatim>\<open>pickle.loads\<close> inside the \<^verbatim>\<open>try\<close>; the handler is
  \<^verbatim>\<open>except Exception\<close>, and so are the handlers of lines 293 and 297, so an exception that
  is no \<^verbatim>\<open>Exception\<close> leaves the loop.
\<close>

definition dispatch ::
  "('a, 'f) env \<Rightarrow> nat \<Rightarrow> bytes \<Rightarrow> ('a, 'f) vct \<Rightarrow> flow \<times> ('a, 'f) vct" where
  "dispatch env msg_type data s =
     (if msg_type = 0 then
        (case pickle_loads env data (called (PickleLoads data) s) of
           (Unpickled frame, s1) \<Rightarrow> (Normal, s1\<lparr>remote_frame := Some frame\<rparr>)
         | (UnpickleError e, s1) \<Rightarrow> (Normal, print (FrameUnpicklingError e) s1)
         | (UnpickleExit, s1) \<Rightarrow> (Exit, s1))
      else if msg_type = 1 then
        (let s1 = called (Utf8Decode data) s in
         case utf8_decode data of
           Inr text \<Rightarrow> (Normal, print (ReceivedText text) s1)
         | Inl e \<Rightarrow> (Normal, print (TextDecodeError e) s1))
      else (Normal, s))"

text \<open>The receive block, lines 252-295.\<close>

definition receive_part :: "('a, 'f) env \<Rightarrow> ('a, 'f) vct \<Rightarrow> flow \<times> ('a, 'f) vct" where
  "receive_part env s =
     (case sock_recv 9 s of
        (Inl e, s1) \<Rightarrow> receive_handler e s1
      | (Inr header, s1) \<Rightarrow>
          if header = [] then (Continue, s1)
          else
            (case unpack_BQ header of
               Inl e \<Rightarrow> receive_handler e s1
             | Inr (msg_type, msg_size) \<Rightarrow>
                 (case recv_payload msg_size 0 [] s1 of
                    (Inl e, s2) \<Rightarrow> receive_handler e s2
                  | (Inr (received, chunks), s2) \<Rightarrow>
                      if received < msg_size then (Continue, s2)
                      else dispatch env msg_type (concat chunks) s2)))"

text \<open>One pass through the body of the transport loop, lines 229-295.\<close>

definition net_iteration :: "('a, 'f) env \<Rightarrow> ('a, 'f) vct \<Rightarrow> flow \<times> ('a, 'f) vct" where
  "net_iteration env s =
     (case send_part env s of
        (Normal, s1) \<Rightarrow> receive_part env s1
      | (fl, s1) \<Rightarrow> (fl, s1))"

text \<open>
  The loop of line 228. The code of this thread does not change \<^verbatim>\<open>self.running\<close>, so on
  a quiet connection the loop does not end: \<open>None\<close>. When it ends, the result says whether an
  exception that is no \<^verbatim>\<open>Exception\<close> ended it.
\<close>

partial_function (option) net_loop ::
  "('a, 'f) env \<Rightarrow> ('a, 'f) vct \<Rightarrow> (bool \<times> ('a, 'f) vct) option" where
  "net_loop env s =
     (if running s \<and> connection s \<noteq> None then
        (case net_iteration env s of
           (Break, s1) \<Rightarrow> Some (False, s1)
         | (Exit, s1) \<Rightarrow> Some (True, s1)
         | (fl, s1) \<Rightarrow> net_loop env s1)
      else Some (False, s))"

text \<open>
  A call that may raise, followed by the rest of the block: the call is recorded, and the
  rest runs only when the call returns.
\<close>

definition ext_call ::
  "('a, 'f) env \<Rightarrow> ('a, 'f) call \<Rightarrow> ('a, 'f) vct \<Rightarrow>
   (('a, 'f) vct \<Rightarrow> exn option \<times> ('a, 'f) vct) \<Rightarrow> exn option \<times> ('a, 'f) vct" where
  "ext_call env c s k =
     (let s1 = called c s in
      case fault env c of Some e \<Rightarrow> (Some e, s1) | None \<Rightarrow> k s1)"

text \<open>Connection set-up, lines 209-226.\<close>

definition net_setup :: "('a, 'f) env \<Rightarrow> ('a, 'f) vct \<Rightarrow> exn option \<times> ('a, 'f) vct" where
  "net_setup env s0 =
     (if is_host s0 then
        ext_call env (Sock (SockNew Listener)) s0 (\<lambda>s.
        ext_call env (Sock SetReuseAddr) (s\<lparr>socket := Some Listener\<rparr>) (\<lambda>s.
        ext_call env (Sock (Bind (host s) (port s))) s (\<lambda>s.
        ext_call env (Sock Listen) s (\<lambda>s.
        ext_call env (Sock Accept) (print (WaitingForConnection (host s) (port s)) s) (\<lambda>s.
        ext_call env (Sock SetTimeout) (print ConnectedTo (s\<lparr>connection := Some Accepted\<rparr>))
          (\<lambda>s. (None, s)))))))
      else
        ext_call env (Sock (SockNew Client)) s0 (\<lambda>s.
        ext_call env (Sock (Connect (host s) (port s)))
          (print (Connecting (host s) (port s)) (s\<lparr>socket := Some Client\<rparr>)) (\<lambda>s.
        ext_call env (Sock SetTimeout) (print ConnectedToHost (s\<lparr>connection := socket s\<rparr>))
          (\<lambda>s. (None, s)))))"

text \<open>
  Closing what is there: \<^verbatim>\<open>if self.connection: self.connection.close()\<close> and then
  \<^verbatim>\<open>if self.socket: self.socket.close()\<close>, as lines 300-303 and lines 335-338 both have it,
  followed by the line each of them prints.
\<close>

definition close_sockets ::
  "('a, 'f) env \<Rightarrow> log_line \<Rightarrow> ('a, 'f) vct \<Rightarrow> exn option \<times> ('a, 'f) vct" where
  "close_sockets env l s0 =
     (let k2 = (\<lambda>s. (None, print l s));
          k1 = (\<lambda>s. case socket s of
                       Some so \<Rightarrow> ext_call env (Sock (Close so)) s k2
                     | None \<Rightarrow> k2 s)
      in case connection s0 of
           Some c \<Rightarrow> ext_call env (Sock (Close c)) s0 k1
         | None \<Rightarrow> k1 s0)"

text \<open>
  How the thread ends: it returns, an exception raised in the \<^verbatim>\<open>finally\<close> block leaves
  it, or the exception that ended the loop leaves it once the \<^verbatim>\<open>finally\<close> block is done.
\<close>

datatype ending = Returned | Raised exn | Exited

definition thread_end ::
  "bool \<Rightarrow> exn option \<times> ('a, 'f) vct \<Rightarrow> ending \<times> ('a, 'f) vct" where
  "thread_end exiting r =
     (case r of
        (Some e, s) \<Rightarrow> (Raised e, s)
      | (None, s) \<Rightarrow> (if exiting then Exited else Returned, s))"

text \<open>
  \<^verbatim>\<open>network_thread\<close>, lines 203-304. The result is \<open>None\<close> when the thread does not
  end; otherwise it is how the thread ends and the state.
\<close>

definition network_thread ::
  "('a, 'f) env \<Rightarrow> ('a, 'f) vct \<Rightarrow> (ending \<times> ('a, 'f) vct) option" where
  "network_thread env s =
     (if \<not> in_call s then Some (Returned, s)
      else
        (case net_setup env s of
           (Some e, s1) \<Rightarrow>
             Some (thread_end False
                     (close_sockets env NetworkConnectionClosed (print (NetworkSetupError e) s1)))
         | (None, s1) \<Rightarrow>
             (case net_loop env s1 of
                None \<Rightarrow> None
              | Some (exiting, s2) \<Rightarrow>
                  Some (thread_end exiting (close_sockets env NetworkConnectionClosed s2)))))"

section \<open>Shutdown and whole runs\<close>

text \<open>The clean-up at the end of \<^verbatim>\<open>start\<close>, lines 331-339.\<close>

definition start_cleanup :: "('a, 'f) env \<Rightarrow> ('a, 'f) vct \<Rightarrow> exn option \<times> ('a, 'f) vct" where
  "start_cleanup env s0 =
     ext_call env CapRelease (s0\<lparr>running := False\<rparr>) (\<lambda>s.
     ext_call env DestroyAllWindows s (\<lambda>s.
     ext_call env PygameQuit s (\<lambda>s.
     close_sockets env ProgramShutdownComplete s)))"

text \<open>
  The releases of lines 332-338 in program order: the camera, the windows, the audio device,
  the connection if there is one, the socket if there is one.
\<close>

definition releases :: "('a, 'f) vct \<Rightarrow> ('a, 'f) call list" where
  "releases s =
     [CapRelease, DestroyAllWindows, PygameQuit]
       @ (case connection s of Some c \<Rightarrow> [Sock (Close c)] | None \<Rightarrow> [])
       @ (case socket s of Some so \<Rightarrow> [Sock (Close so)] | None \<Rightarrow> [])"

text \<open>
  A sequence of calls made one after the other with no handler around any of them: the calls
  up to and including the first one that raises, and the exception it raises.
\<close>

fun until_fault :: "('a, 'f) env \<Rightarrow> ('a, 'f) call list \<Rightarrow> ('a, 'f) call list" where
  "until_fault env [] = []"
| "until_fault env (c # cs) =
     (case fault env c of Some e \<Rightarrow> [c] | None \<Rightarrow> c # until_fault env cs)"

fun first_fault :: "('a, 'f) env \<Rightarrow> ('a, 'f) call list \<Rightarrow> exn option" where
  "first_fault env [] = None"
| "first_fault env (c # cs) =
     (case fault env c of Some e \<Rightarrow> Some e | None \<Rightarrow> first_fault env cs)"

text \<open>The socket calls among the calls made so far.\<close>

fun sock_ops :: "('a, 'f) call list \<Rightarrow> sock_op list" where
  "sock_ops [] = []"
| "sock_ops (Sock op # cs) = op # sock_ops cs"
| "sock_ops (c # cs) = sock_ops cs"

text \<open>
  The five threads run side by side. A run is taken as an interleaving of their steps: one
  pass through the body of a stage loop while \<^verbatim>\<open>self.running\<close> holds, or the network thread
  from its start to its return.
\<close>

inductive thread_step :: "('a, 'f) env \<Rightarrow> ('a, 'f) vct \<Rightarrow> ('a, 'f) vct \<Rightarrow> bool"
  for env :: "('a, 'f) env" where
  audio: "running s \<Longrightarrow> thread_step env s (audio_capture_step s)"
| recognition: "running s \<Longrightarrow> thread_step env s (speech_recognition_step env s)"
| translation: "running s \<Longrightarrow> thread_step env s (translation_step env s)"
| video: "running s \<Longrightarrow> thread_step env s (video_capture_step env s)"
| network: "network_thread env s = Some (r, s') \<Longrightarrow> thread_step env s s'"

text \<open>
  \<^verbatim>\<open>start\<close> from line 311 on: the flag is set, the threads run, and the clean-up follows.
\<close>

inductive full_run :: "('a, 'f) env \<Rightarrow> ('a, 'f) vct \<Rightarrow> exn option \<times> ('a, 'f) vct \<Rightarrow> bool"
  for env :: "('a, 'f) env" where
  "(thread_step env)\<^sup>*\<^sup>* (s0\<lparr>running := True\<rparr>) s \<Longrightarrow> full_run env s0 (start_cleanup env s)"

text \<open>
  \<open>quiet s s'\<close>: from \<open>s\<close> to \<open>s'\<close> the call flag, the socket and the connection are the same,
  and the calls made in between include no socket call.
\<close>

definition quiet :: "('a, 'f) vct \<Rightarrow> ('a, 'f) vct \<Rightarrow> bool" where
  "quiet s s' \<longleftrightarrow>
     in_call s' = in_call s \<and> socket s' = socket s \<and> connection s' = connection s
     \<and> (\<exists>cs. trace s' = trace s @ cs \<and> sock_ops cs = [])"

section \<open>A concrete instance\<close>

text \<open>
  The object as \<^verbatim>\<open>__init__\<close> leaves it (lines 25-29, 44-49 and 59-63), in a world where
  nothing has happened yet and nothing is about to arrive.
\<close>

definition fresh :: "('a, 'f) vct" where
  "fresh =
     \<lparr>audio_queue = [], text_queue = [], translation_queue = [], network_queue = [],
      source_lang = ''en'', target_lang = ''hi'', running = False, translating = True,
      in_call = False, is_host = False, socket = None, connection = None,
      host = ''0.0.0.0'', port = 5000, remote_frame = None,
      mic = [], camera = [], keys = [], inbox = [], send_script = [], wire = [],
      trace = [], out = []\<rparr>"

text \<open>
  Collaborators for the examples: an audio segment is the text spoken in it (silence is not
  understood), a frame is a byte string that pickles to itself and unpickling has no effect
  on the object, an overlay appends its text as UTF-8, translation reverses the text, and no
  set-up or tear-down call raises.
\<close>

definition caption :: "overlay \<Rightarrow> bytes" where
  "caption ov =
     (case utf8_encode (case ov of Original t \<Rightarrow> t | Translated t \<Rightarrow> t) of
        Inl e \<Rightarrow> []
      | Inr bs \<Rightarrow> bs)"

definition plain_env :: "(pystr, bytes) env" where
  "plain_env =
     \<lparr>recognize_google = (\<lambda>audio lang. if audio = [] then Inl UnknownValueError else Inr audio),
      translate = (\<lambda>text src dst. Inr (rev text)),
      synthesize = (\<lambda>text lang. utf8_encode text),
      mixer_load = (\<lambda>fp. None),
      mixer_play = None,
      pickle_dumps = (\<lambda>frame. Inr frame),
      pickle_loads = (\<lambda>data s. if data = [] then (UnpickleError (OtherError ''EOFError''), s)
                              else (Unpickled data, s)),
      resize = (\<lambda>frame. frame),
      put_text = (\<lambda>frame ov. frame @ caption ov),
      fault = (\<lambda>c. None)\<rparr>"

text \<open>States for the examples.\<close>

definition demo_speech :: "(pystr, bytes) vct" where
  "demo_speech = fresh\<lparr>running := True, in_call := True, audio_queue := [[104, 105], []]\<rparr>"

definition demo_muted :: "(pystr, bytes) vct" where
  "demo_muted = fresh\<lparr>running := True, translating := False, text_queue := [[104, 105]]\<rparr>"

definition demo_video :: "(pystr, bytes) vct" where
  "demo_video =
     fresh\<lparr>running := True, camera := [Some [1, 2], Some [3]],
           text_queue := [[104], [105]], translation_queue := [[106]]\<rparr>"

definition demo_client :: "(pystr, bytes) vct" where
  "demo_client = fresh\<lparr>running := True, in_call := True, socket := Some Client,
                       connection := Some Client\<rparr>"

definition demo_send :: "(pystr, bytes) vct" where
  "demo_send = demo_client\<lparr>network_queue := [Text [104, 105], Video [7]],
                           send_script := [Interrupted 4 BrokenPipeError]\<rparr>"

definition demo_short :: "(pystr, bytes) vct" where
  "demo_short = demo_client\<lparr>inbox := [Data [0, 0, 0, 0, 0, 0, 0, 0, 5, 1, 2], Eof]\<rparr>"



text \<open>
  A sender whose first \<^verbatim>\<open>sendall\<close> times out after 12 bytes, and a peer that receives what
  this sender has written to the stream.
\<close>

definition demo_partial :: "(pystr, bytes) vct" where
  "demo_partial = demo_client\<lparr>network_queue := [Video [1, 2, 3, 4, 5], Text [104]],
                              send_script := [Interrupted 12 SocketTimeout]\<rparr>"

definition demo_peer :: "(pystr, bytes) vct" where
  "demo_peer =
     demo_client\<lparr>inbox := [Data [0, 0, 0, 0, 0, 0, 0, 0, 5, 1, 2, 3,
                                   1, 0, 0, 0, 0, 0, 0, 0, 1, 104]]\<rparr>"




text \<open>
  A host with a listening socket and an accepted connection, a build of \<^verbatim>\<open>cv2\<close> whose
  \<^verbatim>\<open>destroyAllWindows\<close> raises \<^verbatim>\<open>cv2.error\<close>, and a local demo with one utterance, one
  camera frame and the key \<^verbatim>\<open>q\<close>.
\<close>

definition demo_host :: "(pystr, bytes) vct" where
  "demo_host = fresh\<lparr>in_call := True, is_host := True, socket := Some Listener,
                     connection := Some Accepted\<rparr>"

definition headless_env :: "(pystr, bytes) env" where
  "headless_env =
     plain_env\<lparr>fault := (\<lambda>c. if c = DestroyAllWindows then Some (OtherError ''cv2.error'')
                            else None)\<rparr>"

definition demo_local :: "(pystr, bytes) vct" where
  "demo_local = fresh\<lparr>mic := [Inr [104, 105]], camera := [Some [1, 2]], keys := [113]\<rparr>"

section \<open>The header round trip\<close>

lemma length_be_bytes: "length (be_bytes k n) = k"
  by (induction k arbitrary: n) auto

lemma be_value_append:
  "be_value (xs @ [b]) = be_value xs * 256 + unat b"
  by (simp add: be_value_def)

lemma unat_byte_of_mod: "unat (of_nat (n mod 256) :: byte) = n mod 256"
  by (simp add: unat_of_nat)

lemma be_value_be_bytes: "be_value (be_bytes k n) = n mod 256 ^ k"
proof (induction k arbitrary: n)
  case 0
  show ?case by (simp add: be_value_def)
next
  case (Suc k)
  have "be_value (be_bytes (Suc k) n) = (n div 256) mod 256 ^ k * 256 + n mod 256"
    by (simp add: be_value_append unat_byte_of_mod Suc.IH)
  also have "\<dots> = n mod 256 ^ Suc k"
    by (simp add: mod_mult2_eq mult.commute)
  finally show ?case .
qed

lemma unpack_pack_BQ:
  assumes "t \<le> 255" and "n < 2 ^ 64"
  shows "unpack_BQ (be_bytes 1 t @ be_bytes 8 n) = Inr (t, n)"
proof -
  have len: "length (be_bytes 1 t @ be_bytes 8 n) = 9"
    by (simp add: length_be_bytes)
  have tk: "take 1 (be_bytes 1 t @ be_bytes 8 n) = be_bytes 1 t"
    using length_be_bytes [of 1 t] by simp
  have dr: "drop 1 (be_bytes 1 t @ be_bytes 8 n) = be_bytes 8 n"
    using length_be_bytes [of 1 t] by simp
  have v1: "be_value (be_bytes 1 t) = t"
    using assms(1) by (simp only: be_value_be_bytes) simp
  have "(256::nat) ^ 8 = 2 ^ 64" by simp
  then have v8: "be_value (be_bytes 8 n) = n"
    using assms(2) by (simp only: be_value_be_bytes) simp
  show ?thesis
    unfolding unpack_BQ_def by (simp only: len tk dr v1 v8) simp
qed

lemma be_bytes_1: "be_bytes 1 n = [of_nat (n mod 256)]"
  unfolding One_nat_def by simp

lemma be_bytes_numeral:
  "be_bytes (numeral k) n = be_bytes (pred_numeral k) (n div 256) @ [of_nat (n mod 256)]"
proof -
  have "be_bytes (Suc (pred_numeral k)) n =
          be_bytes (pred_numeral k) (n div 256) @ [of_nat (n mod 256)]"
    by simp
  then show ?thesis by (simp only: numeral_eq_Suc [symmetric])
qed

text \<open>
  Claim C1. For a tag in \<open>{0, 1}\<close> and a payload of any length a Python \<^verbatim>\<open>bytes\<close> object can
  have (below \<open>2 ^ 64\<close>, zero included), encoding succeeds, the message is the 9-byte header
  followed by the payload, and unpacking the header with \<^verbatim>\<open>"!BQ"\<close> gives back the tag and
  the exact number of payload bytes.
\<close>

theorem header_round_trip:
  assumes "t \<in> {0, 1}" and "length payload < 2 ^ 64"
  shows "\<exists>wire. encode t payload = Inr wire
           \<and> length (take 9 wire) = 9
           \<and> drop 9 wire = payload
           \<and> unpack_BQ (take 9 wire) = Inr (t, length payload)"
proof -
  let ?h = "be_bytes 1 t @ be_bytes 8 (length payload)"
  have t: "t \<le> 255" using assms(1) by auto
  have len: "length ?h = 9"
    by (simp add: length_be_bytes)
  have enc: "encode t payload = Inr (?h @ payload)"
    using t assms(2) by (simp add: encode_def pack_BQ_def)
  have tk: "take 9 (?h @ payload) = ?h" using len by simp
  have dr: "drop 9 (?h @ payload) = payload" using len by simp
  show ?thesis
    using enc tk dr len unpack_pack_BQ [OF t assms(2)] by simp
qed

theorem header_round_trip_witness:
  "(1::nat) \<in> {0, 1} \<and> length ([] :: bytes) < 2 ^ 64
   \<and> (\<exists>wire. encode 1 [] = Inr wire
           \<and> length (take 9 wire) = 9
           \<and> drop 9 wire = []
           \<and> unpack_BQ (take 9 wire) = Inr (1, length ([] :: bytes)))"
  using header_round_trip [of 1 "[] :: bytes"] by simp

section \<open>What each step leaves alone\<close>

lemma called_sel [simp]:
  "audio_queue (called c s) = audio_queue s"
  "text_queue (called c s) = text_queue s"
  "translation_queue (called c s) = translation_queue s"
  "network_queue (called c s) = network_queue s"
  "source_lang (called c s) = source_lang s"
  "target_lang (called c s) = target_lang s"
  "running (called c s) = running s"
  "translating (called c s) = translating s"
  "in_call (called c s) = in_call s"
  "is_host (called c s) = is_host s"
  "socket (called c s) = socket s"
  "connection (called c s) = connection s"
  "host (called c s) = host s"
  "port (called c s) = port s"
  "remote_frame (called c s) = remote_frame s"
  "mic (called c s) = mic s"
  "camera (called c s) = camera s"
  "keys (called c s) = keys s"
  "inbox (called c s) = inbox s"
  "send_script (called c s) = send_script s"
  "wire (called c s) = wire s"
  "trace (called c s) = trace s @ [c]"
  "out (called c s) = out s"
  by (simp_all add: called_def)

lemma print_sel [simp]:
  "audio_queue (print l s) = audio_queue s"
  "text_queue (print l s) = text_queue s"
  "translation_queue (print l s) = translation_queue s"
  "network_queue (print l s) = network_queue s"
  "source_lang (print l s) = source_lang s"
  "target_lang (print l s) = target_lang s"
  "running (print l s) = running s"
  "translating (print l s) = translating s"
  "in_call (print l s) = in_call s"
  "is_host (print l s) = is_host s"
  "socket (print l s) = socket s"
  "connection (print l s) = connection s"
  "host (print l s) = host s"
  "port (print l s) = port s"
  "remote_frame (print l s) = remote_frame s"
  "mic (print l s) = mic s"
  "camera (print l s) = camera s"
  "keys (print l s) = keys s"
  "inbox (print l s) = inbox s"
  "send_script (print l s) = send_script s"
  "wire (print l s) = wire s"
  "trace (print l s) = trace s"
  "out (print l s) = out s @ [l]"
  by (simp_all add: print_def)

lemma cap_read_sel [simp]:
  "audio_queue (snd (cap_read s)) = audio_queue s"
  "text_queue (snd (cap_read s)) = text_queue s"
  "translation_queue (snd (cap_read s)) = translation_queue s"
  "network_queue (snd (cap_read s)) = network_queue s"
  "source_lang (snd (cap_read s)) = source_lang s"
  "target_lang (snd (cap_read s)) = target_lang s"
  "running (snd (cap_read s)) = running s"
  "translating (snd (cap_read s)) = translating s"
  "in_call (snd (cap_read s)) = in_call s"
  "is_host (snd (cap_read s)) = is_host s"
  "socket (snd (cap_read s)) = socket s"
  "connection (snd (cap_read s)) = connection s"
  "host (snd (cap_read s)) = host s"
  "port (snd (cap_read s)) = port s"
  "remote_frame (snd (cap_read s)) = remote_frame s"
  "mic (snd (cap_read s)) = mic s"
  "camera (snd (cap_read s)) = tl (camera s)"
  "keys (snd (cap_read s)) = keys s"
  "inbox (snd (cap_read s)) = inbox s"
  "send_script (snd (cap_read s)) = send_script s"
  "wire (snd (cap_read s)) = wire s"
  "trace (snd (cap_read s)) = trace s @ [CapRead]"
  "out (snd (cap_read s)) = out s"
  "fst (cap_read s) = (case camera s of [] \<Rightarrow> None | r # cam \<Rightarrow> r)"
  by (simp_all add: cap_read_def Let_def split: list.split)

lemma wait_key_sel [simp]:
  "audio_queue (snd (wait_key s)) = audio_queue s"
  "text_queue (snd (wait_key s)) = text_queue s"
  "translation_queue (snd (wait_key s)) = translation_queue s"
  "network_queue (snd (wait_key s)) = network_queue s"
  "source_lang (snd (wait_key s)) = source_lang s"
  "target_lang (snd (wait_key s)) = target_lang s"
  "running (snd (wait_key s)) = running s"
  "translating (snd (wait_key s)) = translating s"
  "in_call (snd (wait_key s)) = in_call s"
  "is_host (snd (wait_key s)) = is_host s"
  "socket (snd (wait_key s)) = socket s"
  "connection (snd (wait_key s)) = connection s"
  "host (snd (wait_key s)) = host s"
  "port (snd (wait_key s)) = port s"
  "remote_frame (snd (wait_key s)) = remote_frame s"
  "mic (snd (wait_key s)) = mic s"
  "camera (snd (wait_key s)) = camera s"
  "keys (snd (wait_key s)) = tl (keys s)"
  "inbox (snd (wait_key s)) = inbox s"
  "send_script (snd (wait_key s)) = send_script s"
  "wire (snd (wait_key s)) = wire s"
  "trace (snd (wait_key s)) = trace s @ [WaitKey]"
  "out (snd (wait_key s)) = out s"
  "fst (wait_key s) = (case keys s of [] \<Rightarrow> - 1 | k # ks \<Rightarrow> k)"
  by (simp_all add: wait_key_def Let_def split: list.split)

lemma overlay_text_sel [simp]:
  "audio_queue (snd (overlay_text env f s)) = audio_queue s"
  "text_queue (snd (overlay_text env f s)) = text_queue s"
  "translation_queue (snd (overlay_text env f s)) = translation_queue s"
  "network_queue (snd (overlay_text env f s)) = network_queue s"
  "source_lang (snd (overlay_text env f s)) = source_lang s"
  "target_lang (snd (overlay_text env f s)) = target_lang s"
  "running (snd (overlay_text env f s)) = running s"
  "translating (snd (overlay_text env f s)) = translating s"
  "in_call (snd (overlay_text env f s)) = in_call s"
  "is_host (snd (overlay_text env f s)) = is_host s"
  "socket (snd (overlay_text env f s)) = socket s"
  "connection (snd (overlay_text env f s)) = connection s"
  "host (snd (overlay_text env f s)) = host s"
  "port (snd (overlay_text env f s)) = port s"
  "remote_frame (snd (overlay_text env f s)) = remote_frame s"
  "mic (snd (overlay_text env f s)) = mic s"
  "camera (snd (overlay_text env f s)) = camera s"
  "keys (snd (overlay_text env f s)) = keys s"
  "inbox (snd (overlay_text env f s)) = inbox s"
  "send_script (snd (overlay_text env f s)) = send_script s"
  "wire (snd (overlay_text env f s)) = wire s"
  "trace (snd (overlay_text env f s)) = trace s @ (if text_queue s \<noteq> [] then [PutText (Original (last (text_queue s)))] else [])"
  "out (snd (overlay_text env f s)) = out s"
  "fst (overlay_text env f s) =
     (if text_queue s \<noteq> [] then put_text env f (Original (last (text_queue s))) else f)"
  by (simp_all add: overlay_text_def Let_def)

lemma overlay_translation_sel [simp]:
  "audio_queue (snd (overlay_translation env f s)) = audio_queue s"
  "text_queue (snd (overlay_translation env f s)) = text_queue s"
  "translation_queue (snd (overlay_translation env f s)) = translation_queue s"
  "network_queue (snd (overlay_translation env f s)) = network_queue s"
  "source_lang (snd (overlay_translation env f s)) = source_lang s"
  "target_lang (snd (overlay_translation env f s)) = target_lang s"
  "running (snd (overlay_translation env f s)) = running s"
  "translating (snd (overlay_translation env f s)) = translating s"
  "in_call (snd (overlay_translation env f s)) = in_call s"
  "is_host (snd (overlay_translation env f s)) = is_host s"
  "socket (snd (overlay_translation env f s)) = socket s"
  "connection (snd (overlay_translation env f s)) = connection s"
  "host (snd (overlay_translation env f s)) = host s"
  "port (snd (overlay_translation env f s)) = port s"
  "remote_frame (snd (overlay_translation env f s)) = remote_frame s"
  "mic (snd (overlay_translation env f s)) = mic s"
  "camera (snd (overlay_translation env f s)) = camera s"
  "keys (snd (overlay_translation env f s)) = keys s"
  "inbox (snd (overlay_translation env f s)) = inbox s"
  "send_script (snd (overlay_translation env f s)) = send_script s"
  "wire (snd (overlay_translation env f s)) = wire s"
  "trace (snd (overlay_translation env f s)) = trace s @ (if translation_queue s \<noteq> [] \<and> translating s
       then [PutText (Translated (last (translation_queue s)))] else [])"
  "out (snd (overlay_translation env f s)) = out s"
  "fst (overlay_translation env f s) =
     (if translation_queue s \<noteq> [] \<and> translating s
      then put_text env f (Translated (last (translation_queue s))) else f)"
  by (simp_all add: overlay_translation_def Let_def)

lemma enqueue_frame_sel [simp]:
  "audio_queue (enqueue_frame f s) = audio_queue s"
  "text_queue (enqueue_frame f s) = text_queue s"
  "translation_queue (enqueue_frame f s) = translation_queue s"
  "network_queue (enqueue_frame f s) = (if in_call s then network_queue s @ [Video f] else network_queue s)"
  "source_lang (enqueue_frame f s) = source_lang s"
  "target_lang (enqueue_frame f s) = target_lang s"
  "running (enqueue_frame f s) = running s"
  "translating (enqueue_frame f s) = translating s"
  "in_call (enqueue_frame f s) = in_call s"
  "is_host (enqueue_frame f s) = is_host s"
  "socket (enqueue_frame f s) = socket s"
  "connection (enqueue_frame f s) = connection s"
  "host (enqueue_frame f s) = host s"
  "port (enqueue_frame f s) = port s"
  "remote_frame (enqueue_frame f s) = remote_frame s"
  "mic (enqueue_frame f s) = mic s"
  "camera (enqueue_frame f s) = camera s"
  "keys (enqueue_frame f s) = keys s"
  "inbox (enqueue_frame f s) = inbox s"
  "send_script (enqueue_frame f s) = send_script s"
  "wire (enqueue_frame f s) = wire s"
  "trace (enqueue_frame f s) = trace s"
  "out (enqueue_frame f s) = out s"
  by (simp_all add: enqueue_frame_def)

lemma show_remote_sel [simp]:
  "audio_queue (show_remote s) = audio_queue s"
  "text_queue (show_remote s) = text_queue s"
  "translation_queue (show_remote s) = translation_queue s"
  "network_queue (show_remote s) = network_queue s"
  "source_lang (show_remote s) = source_lang s"
  "target_lang (show_remote s) = target_lang s"
  "running (show_remote s) = running s"
  "translating (show_remote s) = translating s"
  "in_call (show_remote s) = in_call s"
  "is_host (show_remote s) = is_host s"
  "socket (show_remote s) = socket s"
  "connection (show_remote s) = connection s"
  "host (show_remote s) = host s"
  "port (show_remote s) = port s"
  "remote_frame (show_remote s) = remote_frame s"
  "mic (show_remote s) = mic s"
  "camera (show_remote s) = camera s"
  "keys (show_remote s) = keys s"
  "inbox (show_remote s) = inbox s"
  "send_script (show_remote s) = send_script s"
  "wire (show_remote s) = wire s"
  "trace (show_remote s) = trace s @ (case remote_frame s of Some rf \<Rightarrow> [Imshow RemoteVideo rf] | None \<Rightarrow> [])"
  "out (show_remote s) = out s"
  by (simp_all add: show_remote_def split: option.split)

lemma check_quit_sel [simp]:
  "audio_queue (check_quit s) = audio_queue s"
  "text_queue (check_quit s) = text_queue s"
  "translation_queue (check_quit s) = translation_queue s"
  "network_queue (check_quit s) = network_queue s"
  "source_lang (check_quit s) = source_lang s"
  "target_lang (check_quit s) = target_lang s"
  "translating (check_quit s) = translating s"
  "in_call (check_quit s) = in_call s"
  "is_host (check_quit s) = is_host s"
  "socket (check_quit s) = socket s"
  "connection (check_quit s) = connection s"
  "host (check_quit s) = host s"
  "port (check_quit s) = port s"
  "remote_frame (check_quit s) = remote_frame s"
  "mic (check_quit s) = mic s"
  "camera (check_quit s) = camera s"
  "keys (check_quit s) = tl (keys s)"
  "inbox (check_quit s) = inbox s"
  "send_script (check_quit s) = send_script s"
  "wire (check_quit s) = wire s"
  "trace (check_quit s) = trace s @ [WaitKey]"
  "out (check_quit s) = out s"
  by (simp_all add: check_quit_def split_def Let_def)

section \<open>The recognition and translation stages\<close>

text \<open>
  Claim C7. When an audio segment is taken from the audio queue and recognised, the recognised
  string is appended to the text queue, and a text message with that same string is appended
  to the network queue exactly when a call is active; nothing is printed. When the recogniser
  answers that no speech was understood, no queue receives anything and nothing is printed.
\<close>

theorem recognition_stage:
  assumes "audio_queue s = audio # rest"
  shows "(recognize_google env audio (source_lang s) = Inr text \<longrightarrow>
            audio_queue (speech_recognition_step env s) = rest
          \<and> text_queue (speech_recognition_step env s) = text_queue s @ [text]
          \<and> network_queue (speech_recognition_step env s) =
              (if in_call s then network_queue s @ [Text text] else network_queue s)
          \<and> translation_queue (speech_recognition_step env s) = translation_queue s
          \<and> out (speech_recognition_step env s) = out s)
       \<and> (recognize_google env audio (source_lang s) = Inl UnknownValueError \<longrightarrow>
            audio_queue (speech_recognition_step env s) = rest
          \<and> text_queue (speech_recognition_step env s) = text_queue s
          \<and> network_queue (speech_recognition_step env s) = network_queue s
          \<and> translation_queue (speech_recognition_step env s) = translation_queue s
          \<and> out (speech_recognition_step env s) = out s)"
  using assms by (simp add: speech_recognition_step_def Let_def)

theorem recognition_stage_witness:
  "text_queue (speech_recognition_step plain_env demo_speech) = [[104, 105]]
   \<and> network_queue (speech_recognition_step plain_env demo_speech) = [Text [104, 105]]
   \<and> out (speech_recognition_step plain_env demo_speech) = []
   \<and> text_queue (speech_recognition_step plain_env (demo_speech\<lparr>audio_queue := [[]]\<rparr>)) = []
   \<and> network_queue (speech_recognition_step plain_env (demo_speech\<lparr>audio_queue := [[]]\<rparr>)) = []
   \<and> out (speech_recognition_step plain_env (demo_speech\<lparr>audio_queue := [[]]\<rparr>)) = []"
proof -
  have a: "audio_queue demo_speech = [104, 105] # [[]]"
    and b: "audio_queue (demo_speech\<lparr>audio_queue := [[]]\<rparr>) = [] # []"
    and r1: "recognize_google plain_env [104, 105] (source_lang demo_speech) = Inr [104, 105]"
    and r2: "recognize_google plain_env [] (source_lang (demo_speech\<lparr>audio_queue := [[]]\<rparr>))
             = Inl UnknownValueError"
    and f: "in_call demo_speech" "text_queue demo_speech = []" "network_queue demo_speech = []"
      "out demo_speech = []"
    by (simp_all add: demo_speech_def fresh_def plain_env_def)
  show ?thesis
    using recognition_stage [OF a, of plain_env "[104, 105]"]
      recognition_stage [OF b, of plain_env "[]"] r1 r2 f
    by simp
qed

text \<open>
  Claim C8. With the translating flag off, the translation stage takes the text from the text
  queue and does nothing else: the state afterwards is the state before with the head of the
  text queue removed, so nothing is put on the translation queue, no call is made to the
  translator, to the synthesiser or to the mixer, and nothing is printed.
\<close>

theorem translation_disabled:
  assumes "\<not> translating s" and "text_queue s = text # rest"
  shows "translation_step env s = s\<lparr>text_queue := rest\<rparr>
       \<and> translation_queue (translation_step env s) = translation_queue s
       \<and> trace (translation_step env s) = trace s
       \<and> out (translation_step env s) = out s"
  using assms by (simp add: translation_step_def)

theorem translation_disabled_witness:
  "text_queue (translation_step plain_env demo_muted) = []
   \<and> translation_queue (translation_step plain_env demo_muted) = []
   \<and> trace (translation_step plain_env demo_muted) = []
   \<and> out (translation_step plain_env demo_muted) = []"
proof -
  have a: "\<not> translating demo_muted" and b: "text_queue demo_muted = [104, 105] # []"
    and f: "translation_queue demo_muted = []" "trace demo_muted = []" "out demo_muted = []"
    by (simp_all add: demo_muted_def fresh_def)
  show ?thesis
    using translation_disabled [OF a b, of plain_env] f by simp
qed

section \<open>The video stage\<close>

lemma video_step_queues:
  "text_queue (video_capture_step env s) = text_queue s
   \<and> translation_queue (video_capture_step env s) = translation_queue s"
  by (simp add: video_capture_step_def split_def Let_def split: option.split)

lemma video_steps_queues:
  "text_queue ((video_capture_step env ^^ n) s) = text_queue s
   \<and> translation_queue ((video_capture_step env ^^ n) s) = translation_queue s"
  by (induction n) (simp_all add: video_step_queues)

lemma video_step_trace:
  assumes "camera s = Some raw # cam"
  shows "trace (video_capture_step env s) =
     trace s @ [CapRead]
       @ (if text_queue s \<noteq> [] then [PutText (Original (last (text_queue s)))] else [])
       @ (if translation_queue s \<noteq> [] \<and> translating s
          then [PutText (Translated (last (translation_queue s)))] else [])
       @ [Imshow VideoTranslator
            (fst (overlay_translation env
                   (fst (overlay_text env (resize env raw) s)) s))]
       @ (case remote_frame s of Some rf \<Rightarrow> [Imshow RemoteVideo rf] | None \<Rightarrow> [])
       @ [WaitKey]"
  using assms by (simp add: video_capture_step_def split_def Let_def)

text \<open>
  Claim C9. Any number of passes through the video loop leave the text queue and the
  translation queue as they were. In a pass that captures a frame, the text drawn is the last
  element of the text queue and the translation drawn is the last element of the translation
  queue, and the frame shown carries exactly these overlays: the calls of the pass are the
  capture, the overlays, the display of the local frame, the display of the remote frame if
  there is one, and the key poll.
\<close>

theorem video_overlay_peeks:
  assumes "camera s = Some raw # cam"
  shows "text_queue ((video_capture_step env ^^ n) s) = text_queue s
       \<and> translation_queue ((video_capture_step env ^^ n) s) = translation_queue s
       \<and> trace (video_capture_step env s) =
           trace s @ [CapRead]
             @ (if text_queue s \<noteq> [] then [PutText (Original (last (text_queue s)))] else [])
             @ (if translation_queue s \<noteq> [] \<and> translating s
                then [PutText (Translated (last (translation_queue s)))] else [])
             @ [Imshow VideoTranslator
                  (let frame1 =
                     (if text_queue s \<noteq> []
                      then put_text env (resize env raw) (Original (last (text_queue s)))
                      else resize env raw)
                   in if translation_queue s \<noteq> [] \<and> translating s
                      then put_text env frame1 (Translated (last (translation_queue s)))
                      else frame1)]
             @ (case remote_frame s of Some rf \<Rightarrow> [Imshow RemoteVideo rf] | None \<Rightarrow> [])
             @ [WaitKey]"
  using video_steps_queues [of n env s] video_step_trace [OF assms, of env]
  by (simp add: Let_def)

theorem video_overlay_peeks_witness:
  "text_queue ((video_capture_step plain_env ^^ 2) demo_video) = [[104], [105]]
   \<and> translation_queue ((video_capture_step plain_env ^^ 2) demo_video) = [[106]]
   \<and> trace (video_capture_step plain_env demo_video) =
       [CapRead, PutText (Original [105]), PutText (Translated [106]),
        Imshow VideoTranslator [1, 2, 105, 106], WaitKey]"
proof -
  have a: "camera demo_video = Some [1, 2] # [Some [3]]"
    and f: "text_queue demo_video = [[104], [105]]" "translation_queue demo_video = [[106]]"
      "translating demo_video" "remote_frame demo_video = None" "trace demo_video = []"
    by (simp_all add: demo_video_def fresh_def)
  have e: "resize plain_env [1, 2] = [1, 2]"
    "put_text plain_env [1, 2] (Original [105]) = [1, 2, 105]"
    "put_text plain_env [1, 2, 105] (Translated [106]) = [1, 2, 105, 106]"
    by (simp_all add: plain_env_def caption_def utf8_char_def)
  show ?thesis
    using video_overlay_peeks [OF a, of 2 plain_env] f e by simp
qed

section \<open>The send block\<close>

lemma sock_ops_append: "sock_ops (xs @ ys) = sock_ops xs @ sock_ops ys"
  by (induction xs rule: sock_ops.induct) simp_all

lemma sendall_sel [simp]:
  "audio_queue (snd (sendall w s)) = audio_queue s"
  "text_queue (snd (sendall w s)) = text_queue s"
  "translation_queue (snd (sendall w s)) = translation_queue s"
  "network_queue (snd (sendall w s)) = network_queue s"
  "source_lang (snd (sendall w s)) = source_lang s"
  "target_lang (snd (sendall w s)) = target_lang s"
  "running (snd (sendall w s)) = running s"
  "translating (snd (sendall w s)) = translating s"
  "in_call (snd (sendall w s)) = in_call s"
  "is_host (snd (sendall w s)) = is_host s"
  "socket (snd (sendall w s)) = socket s"
  "connection (snd (sendall w s)) = connection s"
  "host (snd (sendall w s)) = host s"
  "port (snd (sendall w s)) = port s"
  "remote_frame (snd (sendall w s)) = remote_frame s"
  "mic (snd (sendall w s)) = mic s"
  "camera (snd (sendall w s)) = camera s"
  "keys (snd (sendall w s)) = keys s"
  "inbox (snd (sendall w s)) = inbox s"
  "send_script (snd (sendall w s)) = tl (send_script s)"
  "wire (snd (sendall w s)) =
     wire s @ (case send_script s of Interrupted k e # rs \<Rightarrow> take k w | _ \<Rightarrow> w)"
  "trace (snd (sendall w s)) = trace s @ [Sock (SendAll w)]"
  "out (snd (sendall w s)) = out s"
  "fst (sendall w s) = (case send_script s of Interrupted k e # rs \<Rightarrow> Some e | _ \<Rightarrow> None)"
  by (simp_all add: sendall_def Let_def split: list.split sending.split)

lemma send_handler_sel [simp]:
  "audio_queue (snd (send_handler e s)) = audio_queue s"
  "text_queue (snd (send_handler e s)) = text_queue s"
  "translation_queue (snd (send_handler e s)) = translation_queue s"
  "network_queue (snd (send_handler e s)) = network_queue s"
  "source_lang (snd (send_handler e s)) = source_lang s"
  "target_lang (snd (send_handler e s)) = target_lang s"
  "running (snd (send_handler e s)) = running s"
  "translating (snd (send_handler e s)) = translating s"
  "in_call (snd (send_handler e s)) = in_call s"
  "is_host (snd (send_handler e s)) = is_host s"
  "socket (snd (send_handler e s)) = socket s"
  "connection (snd (send_handler e s)) = connection s"
  "host (snd (send_handler e s)) = host s"
  "port (snd (send_handler e s)) = port s"
  "remote_frame (snd (send_handler e s)) = remote_frame s"
  "mic (snd (send_handler e s)) = mic s"
  "camera (snd (send_handler e s)) = camera s"
  "keys (snd (send_handler e s)) = keys s"
  "inbox (snd (send_handler e s)) = inbox s"
  "send_script (snd (send_handler e s)) = send_script s"
  "wire (snd (send_handler e s)) = wire s"
  "trace (snd (send_handler e s)) = trace s"
  "out (snd (send_handler e s)) = out s @ (if e = ConnectionResetError \<or> e = BrokenPipeError \<or> e = SocketTimeout
       then [] else [SendError e])"
  "fst (send_handler e s) =
     (if e = ConnectionResetError \<or> e = BrokenPipeError \<or> e = SocketTimeout
      then Continue else Break)"
  by (simp_all add: send_handler_def)

lemma send_framed_trace:
  "trace (snd (send_framed t data s)) =
     (if 255 < t \<or> 2 ^ 64 \<le> length data then trace s
      else trace s @ [Sock (SendAll (be_bytes 1 t @ be_bytes 8 (length data) @ data))])"
  by (simp add: send_framed_def pack_BQ_def split_def split: option.split)

lemma send_part_trace:
  "trace (snd (send_part env s)) =
     (case network_queue s of
        [] \<Rightarrow> trace s
      | Video frame # rest \<Rightarrow>
          (case pickle_dumps env frame of
             Inl e \<Rightarrow> trace s
           | Inr data \<Rightarrow>
               if 2 ^ 64 \<le> length data then trace s
               else trace s @ [Sock (SendAll (be_bytes 1 0 @ be_bytes 8 (length data) @ data))])
      | Text text # rest \<Rightarrow>
          (case utf8_encode text of
             Inl e \<Rightarrow> trace s
           | Inr data \<Rightarrow>
               if 2 ^ 64 \<le> length data then trace s
               else trace s @ [Sock (SendAll (be_bytes 1 1 @ be_bytes 8 (length data) @ data))]))"
  by (simp add: send_part_def Let_def send_framed_trace
      split: list.split net_item.split sum.split)

text \<open>A send that ends in one of the three exceptions of line 245.\<close>

lemma send_framed_transient:
  assumes "t \<le> 255" and "length data < 2 ^ 64" and "send_script s = Interrupted k e # rs"
    and "e = ConnectionResetError \<or> e = BrokenPipeError \<or> e = SocketTimeout"
  shows "send_framed t data s =
     (Continue, snd (sendall (be_bytes 1 t @ be_bytes 8 (length data) @ data) s))"
  using assms by (auto simp: send_framed_def pack_BQ_def split_def prod_eq_iff)

lemma send_part_transient:
  assumes "network_queue s = item # rest"
    and "(item = Video frame \<and> pickle_dumps env frame = Inr data \<and> t = 0)
         \<or> (item = Text text \<and> utf8_encode text = Inr data \<and> t = 1)"
    and "length data < 2 ^ 64" and "send_script s = Interrupted k e # rs"
    and "e = ConnectionResetError \<or> e = BrokenPipeError \<or> e = SocketTimeout"
  shows "send_part env s =
     (Continue, snd (sendall (be_bytes 1 t @ be_bytes 8 (length data) @ data)
                      (s\<lparr>network_queue := rest\<rparr>)))"
proof -
  have t: "t \<le> 255" using assms(2) by auto
  have sc: "send_script (s\<lparr>network_queue := rest\<rparr>) = Interrupted k e # rs"
    using assms(4) by simp
  have fr: "send_framed t data (s\<lparr>network_queue := rest\<rparr>) =
     (Continue, snd (sendall (be_bytes 1 t @ be_bytes 8 (length data) @ data)
                      (s\<lparr>network_queue := rest\<rparr>)))"
    by (rule send_framed_transient [OF t assms(3) sc assms(5)])
  from assms(2) show ?thesis
  proof
    assume "item = Video frame \<and> pickle_dumps env frame = Inr data \<and> t = 0"
    then show ?thesis using assms(1) fr by (simp add: send_part_def Let_def)
  next
    assume "item = Text text \<and> utf8_encode text = Inr data \<and> t = 1"
    then show ?thesis using assms(1) fr by (simp add: send_part_def Let_def)
  qed
qed

text \<open>A send that returns.\<close>

lemma send_framed_delivered:
  assumes "t \<le> 255" and "length data < 2 ^ 64"
    and "send_script s = [] \<or> send_script s = Delivered # rs"
  shows "send_framed t data s =
     (Normal, snd (sendall (be_bytes 1 t @ be_bytes 8 (length data) @ data) s))"
  using assms by (auto simp: send_framed_def pack_BQ_def split_def prod_eq_iff)

lemma send_part_delivered:
  assumes "network_queue s = item # rest"
    and "(item = Video frame \<and> pickle_dumps env frame = Inr data \<and> t = 0)
         \<or> (item = Text str \<and> utf8_encode str = Inr data \<and> t = 1)"
    and "length data < 2 ^ 64"
    and "send_script s = [] \<or> send_script s = Delivered # rs"
  shows "send_part env s =
     (Normal, snd (sendall (be_bytes 1 t @ be_bytes 8 (length data) @ data)
                    (s\<lparr>network_queue := rest\<rparr>)))"
proof -
  have t: "t \<le> 255" using assms(2) by auto
  have sc: "send_script (s\<lparr>network_queue := rest\<rparr>) = []
            \<or> send_script (s\<lparr>network_queue := rest\<rparr>) = Delivered # rs"
    using assms(4) by simp
  have fr: "send_framed t data (s\<lparr>network_queue := rest\<rparr>) =
     (Normal, snd (sendall (be_bytes 1 t @ be_bytes 8 (length data) @ data)
                    (s\<lparr>network_queue := rest\<rparr>)))"
    by (rule send_framed_delivered [OF t assms(3) sc])
  from assms(2) show ?thesis
  proof
    assume "item = Video frame \<and> pickle_dumps env frame = Inr data \<and> t = 0"
    then show ?thesis using assms(1) fr by (simp add: send_part_def Let_def)
  next
    assume "item = Text str \<and> utf8_encode str = Inr data \<and> t = 1"
    then show ?thesis using assms(1) fr by (simp add: send_part_def Let_def)
  qed
qed

text \<open>What a pass of the send block adds to the stream.\<close>

lemma send_framed_wire:
  "wire (snd (send_framed t data s)) =
     (if 255 < t \<or> 2 ^ 64 \<le> length data then wire s
      else wire (snd (sendall (be_bytes 1 t @ be_bytes 8 (length data) @ data) s)))"
  by (simp add: send_framed_def pack_BQ_def split_def split: option.split)

lemma send_part_wire:
  "wire (snd (send_part env s)) =
     (case network_queue s of
        [] \<Rightarrow> wire s
      | Video frame # rest \<Rightarrow>
          (case pickle_dumps env frame of
             Inl e \<Rightarrow> wire s
           | Inr data \<Rightarrow>
               if 2 ^ 64 \<le> length data then wire s
               else wire (snd (sendall (be_bytes 1 0 @ be_bytes 8 (length data) @ data) s)))
      | Text str # rest \<Rightarrow>
          (case utf8_encode str of
             Inl e \<Rightarrow> wire s
           | Inr data \<Rightarrow>
               if 2 ^ 64 \<le> length data then wire s
               else wire (snd (sendall (be_bytes 1 1 @ be_bytes 8 (length data) @ data) s))))"
  by (simp add: send_part_def Let_def send_framed_wire
      split: list.split net_item.split sum.split)

text \<open>The loop goes on after a pass that did not break.\<close>

lemma net_loop_continues:
  assumes "running s" and "connection s \<noteq> None"
    and "net_iteration env s = (fl, s')" and "fl \<noteq> Break" and "fl \<noteq> Exit"
  shows "net_loop env s = net_loop env s'"
  using assms by (subst net_loop.simps) (cases fl; simp)


section \<open>The receive block\<close>

lemma recv_only_refl: "recv_only s s"
  unfolding recv_only_def
  by (rule exI [of _ "inbox s"], rule exI [of _ "[]"]) simp

lemma recv_only_trans:
  assumes "recv_only s s1" and "recv_only s1 s2"
  shows "recv_only s s2"
proof -
  obtain evs ns where 1: "s1 = s\<lparr>inbox := evs, trace := trace s @ map (\<lambda>n. Sock (Recv n)) ns\<rparr>"
    using assms(1) unfolding recv_only_def by blast
  obtain evs' ns' where
    2: "s2 = s1\<lparr>inbox := evs', trace := trace s1 @ map (\<lambda>n. Sock (Recv n)) ns'\<rparr>"
    using assms(2) unfolding recv_only_def by blast
  have "s2 = s\<lparr>inbox := evs', trace := trace s @ map (\<lambda>n. Sock (Recv n)) (ns @ ns')\<rparr>"
    unfolding 2 1 by simp
  then show ?thesis unfolding recv_only_def by blast
qed

lemma recv_only_sel:
  assumes "recv_only s s'"
  shows "remote_frame s' = remote_frame s" "out s' = out s" "running s' = running s"
    "connection s' = connection s" "socket s' = socket s" "in_call s' = in_call s"
    "network_queue s' = network_queue s" "text_queue s' = text_queue s"
    "translation_queue s' = translation_queue s" "send_script s' = send_script s"
    "wire s' = wire s"
  using assms by (auto simp: recv_only_def)

lemma recv_only_trace:
  assumes "recv_only s s'"
  shows "\<exists>ns. trace s' = trace s @ map (\<lambda>n. Sock (Recv n)) ns"
  using assms by (auto simp: recv_only_def)

lemma sock_recv_def2:
  "sock_recv n s =
     (fst (recv_events n (inbox s)),
      s\<lparr>inbox := snd (recv_events n (inbox s)), trace := trace s @ [Sock (Recv n)]\<rparr>)"
  by (simp add: sock_recv_def called_def split_def Let_def)

lemma sock_recv_keeps:
  "wire (snd (sock_recv n s)) = wire s"
  "running (snd (sock_recv n s)) = running s"
  "connection (snd (sock_recv n s)) = connection s"
  "out (snd (sock_recv n s)) = out s"
  "remote_frame (snd (sock_recv n s)) = remote_frame s"
  by (simp_all add: sock_recv_def2)

lemma sock_recv_recv_only: "recv_only s (snd (sock_recv n s))"
  unfolding recv_only_def sock_recv_def2
  by (rule exI [of _ "snd (recv_events n (inbox s))"], rule exI [of _ "[n]"]) simp

lemma recv_payload_recv_only: "recv_only s (snd (recv_payload m r c s))"
proof (induction m r c s rule: recv_payload.induct)
  case (1 m r c s)
  obtain x s1 where sr: "sock_recv (min (m - r) 4096) s = (x, s1)"
    by (cases "sock_recv (min (m - r) 4096) s")
  have s1: "recv_only s s1"
    using sock_recv_recv_only [of s "min (m - r) 4096"] sr by simp
  show ?case
  proof (cases "r < m")
    case False
    then show ?thesis by (simp add: recv_payload.simps [of m r c s] recv_only_refl)
  next
    case True
    show ?thesis
    proof (cases x)
      case (Inl e)
      then show ?thesis using True sr s1 by (simp add: recv_payload.simps [of m r c s])
    next
      case (Inr chunk)
      show ?thesis
      proof (cases "chunk = []")
        case True
        then show ?thesis
          using \<open>r < m\<close> sr s1 Inr by (simp add: recv_payload.simps [of m r c s])
      next
        case False
        have "recv_only s1 (snd (recv_payload m (r + length chunk) (c @ [chunk]) s1))"
          by (rule "1.IH" [OF True sr [symmetric] Inr False])
        then have "recv_only s (snd (recv_payload m (r + length chunk) (c @ [chunk]) s1))"
          by (rule recv_only_trans [OF s1])
        then show ?thesis
          using True sr Inr False by (simp add: recv_payload.simps [of m r c s])
      qed
    qed
  qed
qed

text \<open>\<^verbatim>\<open>recv\<close> gives \<^verbatim>\<open>b''\<close> only at the end of the stream.\<close>

lemma recv_events_empty:
  assumes "fst (recv_events n evs) = Inr []" and "0 < n"
  shows "\<exists>rest. snd (recv_events n evs) = Eof # rest"
  using assms by (induction n evs rule: recv_events.induct) (auto split: if_splits)

lemma recv_payload_short:
  assumes "recv_payload m r c s = (Inr (r', c'), s')" and "r' < m"
  shows "\<exists>rest. inbox s' = Eof # rest"
  using assms
proof (induction m r c s rule: recv_payload.induct)
  case (1 m r c s)
  obtain x s1 where sr: "sock_recv (min (m - r) 4096) s = (x, s1)"
    by (cases "sock_recv (min (m - r) 4096) s")
  have x: "x = fst (recv_events (min (m - r) 4096) (inbox s))"
    and i1: "inbox s1 = snd (recv_events (min (m - r) 4096) (inbox s))"
    using sr by (auto simp: sock_recv_def2)
  show ?case
  proof (cases "r < m")
    case False
    then show ?thesis using "1.prems" by (simp add: recv_payload.simps [of m r c s])
  next
    case True
    show ?thesis
    proof (cases x)
      case (Inl e)
      then show ?thesis
        using True sr "1.prems" by (simp add: recv_payload.simps [of m r c s])
    next
      case (Inr chunk)
      show ?thesis
      proof (cases "chunk = []")
        case True
        then have "s' = s1"
          using \<open>r < m\<close> sr Inr "1.prems" by (simp add: recv_payload.simps [of m r c s])
        moreover have "\<exists>rest. snd (recv_events (min (m - r) 4096) (inbox s)) = Eof # rest"
          using recv_events_empty [of "min (m - r) 4096" "inbox s"] x Inr True \<open>r < m\<close>
          by simp
        ultimately show ?thesis using i1 by simp
      next
        case False
        have "recv_payload m (r + length chunk) (c @ [chunk]) s1 = (Inr (r', c'), s')"
          using True sr Inr False "1.prems" by (simp add: recv_payload.simps [of m r c s])
        then show ?thesis
          using "1.IH" [OF True sr [symmetric] Inr False] "1.prems"(2) by blast
      qed
    qed
  qed
qed

text \<open>
  Claim C4. When the message at the head of the network queue has been serialised and the
  \<^verbatim>\<open>sendall\<close> for it raises a connection reset, a broken pipe or a timeout, after however
  many bytes, the pass ends with \<^verbatim>\<open>continue\<close>: the message is gone from the queue and is
  not put back, there was exactly one send attempt, nothing is received or printed in this
  pass, and the loop goes on from the resulting state. The bytes written before the exception
  stay on the stream.
\<close>

theorem send_failure_drops_message:
  assumes "running s" and "connection s \<noteq> None"
    and "network_queue s = item # rest"
    and "(item = Video frame \<and> pickle_dumps env frame = Inr data \<and> t = 0)
         \<or> (item = Text text \<and> utf8_encode text = Inr data \<and> t = 1)"
    and "length data < 2 ^ 64"
    and "send_script s = Interrupted k e # rs"
    and "e = ConnectionResetError \<or> e = BrokenPipeError \<or> e = SocketTimeout"
  shows "fst (net_iteration env s) = Continue
       \<and> network_queue (snd (net_iteration env s)) = rest
       \<and> trace (snd (net_iteration env s)) =
           trace s @ [Sock (SendAll (be_bytes 1 t @ be_bytes 8 (length data) @ data))]
       \<and> send_script (snd (net_iteration env s)) = rs
       \<and> inbox (snd (net_iteration env s)) = inbox s
       \<and> out (snd (net_iteration env s)) = out s
       \<and> remote_frame (snd (net_iteration env s)) = remote_frame s
       \<and> wire (snd (net_iteration env s)) =
           wire s @ take k (be_bytes 1 t @ be_bytes 8 (length data) @ data)
       \<and> net_loop env s = net_loop env (snd (net_iteration env s))"
proof -
  let ?w = "be_bytes 1 t @ be_bytes 8 (length data) @ data"
  let ?s' = "snd (sendall ?w (s\<lparr>network_queue := rest\<rparr>))"
  have sp: "send_part env s = (Continue, ?s')"
    by (rule send_part_transient [OF assms(3) assms(4) assms(5) assms(6) assms(7)])
  have it: "net_iteration env s = (Continue, ?s')"
    by (simp add: net_iteration_def sp)
  have loop: "net_loop env s = net_loop env ?s'"
    by (rule net_loop_continues [OF assms(1) assms(2) it]) simp_all
  show ?thesis
    using loop assms(6) by (simp add: it)
qed

theorem send_failure_drops_message_witness:
  "fst (net_iteration plain_env demo_send) = Continue
   \<and> network_queue (snd (net_iteration plain_env demo_send)) = [Video [7]]
   \<and> trace (snd (net_iteration plain_env demo_send)) =
       [Sock (SendAll [1, 0, 0, 0, 0, 0, 0, 0, 2, 104, 105])]
   \<and> out (snd (net_iteration plain_env demo_send)) = []
   \<and> wire (snd (net_iteration plain_env demo_send)) = [1, 0, 0, 0]
   \<and> net_loop plain_env demo_send = net_loop plain_env (snd (net_iteration plain_env demo_send))"
proof -
  have a: "running demo_send" and b: "connection demo_send \<noteq> None"
    and c: "network_queue demo_send = Text [104, 105] # [Video [7]]"
    and d: "send_script demo_send = Interrupted 4 BrokenPipeError # []"
    and f: "trace demo_send = []" "out demo_send = []" "wire demo_send = []"
    by (simp_all add: demo_send_def demo_client_def fresh_def)
  have e: "(Text [104, 105] = Video ([] :: bytes)
              \<and> pickle_dumps plain_env ([] :: bytes) = Inr [104, 105] \<and> (1 :: nat) = 0)
         \<or> ((Text [104, 105] :: bytes net_item) = Text [104, 105]
              \<and> utf8_encode [104, 105] = Inr [104, 105] \<and> (1 :: nat) = 1)"
    by (simp add: utf8_char_def)
  have g: "length ([104, 105] :: bytes) < 2 ^ 64" by simp
  have h: "BrokenPipeError = ConnectionResetError \<or> BrokenPipeError = BrokenPipeError
           \<or> BrokenPipeError = SocketTimeout" by simp
  have w: "be_bytes 1 1 @ be_bytes 8 (length ([104, 105] :: bytes)) @ [104, 105]
           = ([1, 0, 0, 0, 0, 0, 0, 0, 2, 104, 105] :: bytes)"
    by (simp add: be_bytes_1 be_bytes_numeral)
  show ?thesis
    using send_failure_drops_message [OF a b c e g d h] f w by simp
qed

lemma receive_handler_sel:
  "fst (receive_handler e s) = (if e = SocketTimeout \<or> e = StructError then Continue else Break)"
  "trace (snd (receive_handler e s)) = trace s"
  "remote_frame (snd (receive_handler e s)) = remote_frame s"
  by (simp_all add: receive_handler_def)

text \<open>The receive block once a header and the payload loop have returned.\<close>

lemma receive_part_payload:
  assumes "sock_recv 9 s = (Inr header, s1)"
    and "unpack_BQ header = Inr (t, m)"
    and "recv_payload m 0 [] s1 = (Inr (r, c), s2)"
  shows "receive_part env s =
     (if r < m then (Continue, s2) else dispatch env t (concat c) s2)"
proof -
  have "header \<noteq> []" using assms(2) by (auto simp: unpack_BQ_def split: if_splits)
  then show ?thesis using assms by (simp add: receive_part_def)
qed

text \<open>The receive block when nothing has arrived.\<close>

lemma receive_part_timeout:
  assumes "inbox s = []"
  shows "receive_part env s = (Continue, snd (sock_recv 9 s))"
  using assms by (simp add: receive_part_def sock_recv_def2 receive_handler_def)

section \<open>Incomplete and undecodable messages\<close>

lemma net_iteration_receive:
  assumes "send_part env s0 = (Normal, s)"
  shows "net_iteration env s0 = receive_part env s"
  using assms by (simp add: net_iteration_def)

text \<open>
  Claim C3. Suppose that in a pass of the transport loop the 9 header bytes have been read
  and announce \<open>msg_size\<close> bytes, and the payload loop ends with fewer bytes than that. Then
  the stream is at its end (the last \<^verbatim>\<open>recv\<close> gave \<^verbatim>\<open>b''\<close>), the pass ends with
  \<^verbatim>\<open>continue\<close>, the loop goes on from the resulting state, the remote frame is the one
  from before, nothing is printed, and after the send block the only calls made are
  \<^verbatim>\<open>recv\<close> calls: nothing is given to \<^verbatim>\<open>pickle.loads\<close> or to the UTF-8 decoder.
\<close>

theorem short_payload_discarded:
  assumes "running s0" and "connection s0 \<noteq> None"
    and "send_part env s0 = (Normal, s)"
    and "sock_recv 9 s = (Inr header, s1)"
    and "unpack_BQ header = Inr (msg_type, msg_size)"
    and "recv_payload msg_size 0 [] s1 = (Inr (received, chunks), s2)"
    and "received < msg_size"
  shows "net_iteration env s0 = (Continue, s2)
       \<and> net_loop env s0 = net_loop env s2
       \<and> remote_frame s2 = remote_frame s
       \<and> out s2 = out s
       \<and> (\<exists>ns. trace s2 = trace s @ map (\<lambda>n. Sock (Recv n)) ns)
       \<and> (\<exists>rest. inbox s2 = Eof # rest)"
proof -
  have it: "net_iteration env s0 = (Continue, s2)"
    using net_iteration_receive [OF assms(3)]
      receive_part_payload [OF assms(4) assms(5) assms(6), of env] assms(7)
    by simp
  have loop: "net_loop env s0 = net_loop env s2"
    by (rule net_loop_continues [OF assms(1) assms(2) it]) simp_all
  have r1: "recv_only s s1" using sock_recv_recv_only [of s 9] assms(4) by simp
  have r2: "recv_only s1 s2"
    using recv_payload_recv_only [of s1 msg_size 0 "[]"] assms(6) by simp
  have r: "recv_only s s2" by (rule recv_only_trans [OF r1 r2])
  show ?thesis
    using it loop recv_only_sel(1,2) [OF r] recv_only_trace [OF r]
      recv_payload_short [OF assms(6) assms(7)]
    by simp
qed

theorem short_payload_discarded_witness:
  "net_iteration plain_env demo_short =
     (Continue, demo_short\<lparr>inbox := [Eof],
                           trace := [Sock (Recv 9), Sock (Recv 5), Sock (Recv 3)]\<rparr>)
   \<and> net_loop plain_env demo_short =
       net_loop plain_env
         (demo_short\<lparr>inbox := [Eof],
                     trace := [Sock (Recv 9), Sock (Recv 5), Sock (Recv 3)]\<rparr>)
   \<and> remote_frame (demo_short\<lparr>inbox := [Eof],
         trace := [Sock (Recv 9), Sock (Recv 5), Sock (Recv 3)]\<rparr>) = None
   \<and> out (demo_short\<lparr>inbox := [Eof],
         trace := [Sock (Recv 9), Sock (Recv 5), Sock (Recv 3)]\<rparr>) = []"
proof -
  let ?s1 = "demo_short\<lparr>inbox := [Data [1, 2], Eof], trace := [Sock (Recv 9)]\<rparr>"
  let ?s2 = "demo_short\<lparr>inbox := [Eof],
                        trace := [Sock (Recv 9), Sock (Recv 5), Sock (Recv 3)]\<rparr>"
  have f: "running demo_short" "connection demo_short \<noteq> None" "network_queue demo_short = []"
    "inbox demo_short = [Data [0, 0, 0, 0, 0, 0, 0, 0, 5, 1, 2], Eof]" "trace demo_short = []"
    "remote_frame demo_short = None" "out demo_short = []"
    by (simp_all add: demo_short_def demo_client_def fresh_def)
  have a: "send_part plain_env demo_short = (Normal, demo_short)"
    by (simp add: send_part_def f)
  have b: "sock_recv 9 demo_short = (Inr [0, 0, 0, 0, 0, 0, 0, 0, 5], ?s1)"
    by (simp add: sock_recv_def2 f)
  have c: "unpack_BQ [0, 0, 0, 0, 0, 0, 0, 0, 5] = Inr (0, 5)"
    by (simp add: unpack_BQ_def be_value_def)
  have d: "recv_payload 5 0 [] ?s1 = (Inr (2, [[1, 2]]), ?s2)"
    by (simp add: recv_payload.simps sock_recv_def2)
  have e: "(2 :: nat) < 5" by simp
  show ?thesis
    using short_payload_discarded [OF f(1) f(2) a b c d e] f by simp
qed




section \<open>Framing on the wire\<close>

text \<open>
  Claim C2. The send block hands header and payload to \<^verbatim>\<open>sendall\<close> in one call, but the
  invariant of the claim does not hold of the bytes on the stream: a \<^verbatim>\<open>sendall\<close> that
  times out after writing a part of the message is caught on line 245 and the loop goes on
  with the next message. Here a frame of five bytes is interrupted after 12 of the 14 bytes of
  its message, and the text message after it is sent whole. Both passes end with
  \<^verbatim>\<open>continue\<close> and the loop goes on; the stream holds a header that announces 5 bytes,
  followed by 3 bytes of payload and then by the next header. A peer that runs the receive
  block on this stream takes the first two bytes of the second header for payload, stores a
  frame that was never sent, and is left with 8 bytes that are no header.
\<close>

theorem partial_send_breaks_framing:
  "fst (net_iteration plain_env demo_partial) = Continue
   \<and> wire (snd (net_iteration plain_env demo_partial)) = [0, 0, 0, 0, 0, 0, 0, 0, 5, 1, 2, 3]
   \<and> fst (net_iteration plain_env (snd (net_iteration plain_env demo_partial))) = Continue
   \<and> wire (snd (net_iteration plain_env (snd (net_iteration plain_env demo_partial)))) =
       [0, 0, 0, 0, 0, 0, 0, 0, 5, 1, 2, 3, 1, 0, 0, 0, 0, 0, 0, 0, 1, 104]
   \<and> net_loop plain_env demo_partial =
       net_loop plain_env (snd (net_iteration plain_env (snd (net_iteration plain_env demo_partial))))
   \<and> unpack_BQ (take 9 [0, 0, 0, 0, 0, 0, 0, 0, 5, 1, 2, 3, 1, 0, 0, 0, 0, 0, 0, 0, 1, 104])
       = Inr (0, 5)
   \<and> take 5 (drop 9 [0, 0, 0, 0, 0, 0, 0, 0, 5, 1, 2, 3, 1, 0, 0, 0, 0, 0, 0, 0, 1, 104 :: byte])
       = [1, 2, 3, 1, 0]
   \<and> inbox demo_peer =
       [Data (wire (snd (net_iteration plain_env (snd (net_iteration plain_env demo_partial)))))]
   \<and> fst (receive_part plain_env demo_peer) = Normal
   \<and> remote_frame (snd (receive_part plain_env demo_peer)) = Some [1, 2, 3, 1, 0]
   \<and> inbox (snd (receive_part plain_env demo_peer)) = [Data [0, 0, 0, 0, 0, 0, 1, 104]]"
proof -
  let ?w1 = "[0, 0, 0, 0, 0, 0, 0, 0, 5, 1, 2, 3, 4, 5] :: bytes"
  let ?w2 = "[1, 0, 0, 0, 0, 0, 0, 0, 1, 104] :: bytes"
  let ?s1 = "snd (sendall ?w1 (demo_partial\<lparr>network_queue := [Text [104]]\<rparr>))"
  let ?s2 = "snd (sendall ?w2 (?s1\<lparr>network_queue := []\<rparr>))"
  let ?s3 = "snd (sock_recv 9 ?s2)"
  have f: "running demo_partial" "connection demo_partial \<noteq> None"
    "network_queue demo_partial = Video [1, 2, 3, 4, 5] # [Text [104]]"
    "send_script demo_partial = Interrupted 12 SocketTimeout # []"
    "wire demo_partial = []" "inbox demo_partial = []"
    by (simp_all add: demo_partial_def demo_client_def fresh_def)
  have e1: "(Video [1, 2, 3, 4, 5] = Video [1, 2, 3, 4, 5]
              \<and> pickle_dumps plain_env [1, 2, 3, 4, 5] = Inr [1, 2, 3, 4, 5] \<and> (0 :: nat) = 0)
         \<or> ((Video [1, 2, 3, 4, 5] :: bytes net_item) = Text []
              \<and> utf8_encode [] = Inr [1, 2, 3, 4, 5] \<and> (0 :: nat) = 1)"
    by (simp add: plain_env_def)
  have e2: "((Text [104] :: bytes net_item) = Video []
              \<and> pickle_dumps plain_env [] = Inr [104] \<and> (1 :: nat) = 0)
         \<or> ((Text [104] :: bytes net_item) = Text [104]
              \<and> utf8_encode [104] = Inr [104] \<and> (1 :: nat) = 1)"
    by (simp add: utf8_char_def)
  have w1: "be_bytes 1 0 @ be_bytes 8 (length ([1, 2, 3, 4, 5] :: bytes)) @ [1, 2, 3, 4, 5] = ?w1"
    and w2: "be_bytes 1 1 @ be_bytes 8 (length ([104] :: bytes)) @ [104] = ?w2"
    by (simp_all add: be_bytes_1 be_bytes_numeral)
  have t: "SocketTimeout = ConnectionResetError \<or> SocketTimeout = BrokenPipeError
           \<or> SocketTimeout = SocketTimeout" by simp
  have sp1: "send_part plain_env demo_partial = (Continue, ?s1)"
    using send_part_transient [OF f(3) e1 _ f(4) t] w1 by simp
  have it1: "net_iteration plain_env demo_partial = (Continue, ?s1)"
    by (simp add: net_iteration_def sp1)
  have g: "running ?s1" "connection ?s1 \<noteq> None" "network_queue ?s1 = Text [104] # []"
    "send_script ?s1 = []" "wire ?s1 = [0, 0, 0, 0, 0, 0, 0, 0, 5, 1, 2, 3]"
    "inbox ?s1 = []"
    by (simp_all add: f)
  have sp2: "send_part plain_env ?s1 = (Normal, ?s2)"
    using send_part_delivered [OF g(3) e2 _ disjI1 [OF g(4)]] w2 by simp
  have rp2: "receive_part plain_env ?s2 = (Continue, ?s3)"
    by (rule receive_part_timeout) (simp add: f)
  have it2: "net_iteration plain_env ?s1 = (Continue, ?s3)"
    by (simp add: net_iteration_def sp2 rp2)
  have w3: "wire ?s3 = [0, 0, 0, 0, 0, 0, 0, 0, 5, 1, 2, 3, 1, 0, 0, 0, 0, 0, 0, 0, 1, 104]"
    by (simp add: sock_recv_keeps f)
  have l1: "net_loop plain_env demo_partial = net_loop plain_env ?s1"
    by (rule net_loop_continues [OF f(1) f(2) it1]) simp_all
  have l2: "net_loop plain_env ?s1 = net_loop plain_env ?s3"
    by (rule net_loop_continues [OF g(1) g(2) it2]) simp_all
  let ?p1 = "demo_peer\<lparr>inbox := [Data [1, 2, 3, 1, 0, 0, 0, 0, 0, 0, 0, 1, 104]],
                        trace := [Sock (Recv 9)]\<rparr>"
  let ?p2 = "demo_peer\<lparr>inbox := [Data [0, 0, 0, 0, 0, 0, 1, 104]],
                        trace := [Sock (Recv 9), Sock (Recv 5)]\<rparr>"
  have p: "inbox demo_peer = [Data [0, 0, 0, 0, 0, 0, 0, 0, 5, 1, 2, 3,
                                    1, 0, 0, 0, 0, 0, 0, 0, 1, 104]]"
    "trace demo_peer = []"
    by (simp_all add: demo_peer_def demo_client_def fresh_def)
  have b: "sock_recv 9 demo_peer = (Inr [0, 0, 0, 0, 0, 0, 0, 0, 5], ?p1)"
    by (simp add: sock_recv_def2 p)
  have c: "unpack_BQ [0, 0, 0, 0, 0, 0, 0, 0, 5] = Inr (0, 5)"
    by (simp add: unpack_BQ_def be_value_def)
  have d: "recv_payload 5 0 [] ?p1 = (Inr (5, [[1, 2, 3, 1, 0]]), ?p2)"
    by (simp add: recv_payload.simps sock_recv_def2)
  have rp: "receive_part plain_env demo_peer = dispatch plain_env 0 [1, 2, 3, 1, 0] ?p2"
    using receive_part_payload [OF b c d, of plain_env] by simp
  have pl: "pickle_loads plain_env [1, 2, 3, 1, 0] st = (Unpickled [1, 2, 3, 1, 0], st)" for st
    by (simp add: plain_env_def)
  have dp: "dispatch plain_env 0 [1, 2, 3, 1, 0] ?p2 =
      (Normal, (called (PickleLoads [1, 2, 3, 1, 0]) ?p2)\<lparr>remote_frame := Some [1, 2, 3, 1, 0]\<rparr>)"
    by (simp add: dispatch_def pl)
  show ?thesis
    using l1 l2 by (simp add: it1 it2 f w3 rp dp c p)
qed

section \<open>Shutdown\<close>

lemma ext_call_sel:
  "ext_call env c s k = (case fault env c of Some e \<Rightarrow> (Some e, called c s) | None \<Rightarrow> k (called c s))"
  by (simp add: ext_call_def Let_def)

lemma close_sockets_trace:
  "trace (snd (close_sockets env l s)) =
     trace s @ until_fault env
       ((case connection s of Some c \<Rightarrow> [Sock (Close c)] | None \<Rightarrow> [])
        @ (case socket s of Some so \<Rightarrow> [Sock (Close so)] | None \<Rightarrow> []))"
  by (simp add: close_sockets_def ext_call_sel Let_def split: option.split)

lemma close_sockets_result:
  "fst (close_sockets env l s) =
     first_fault env
       ((case connection s of Some c \<Rightarrow> [Sock (Close c)] | None \<Rightarrow> [])
        @ (case socket s of Some so \<Rightarrow> [Sock (Close so)] | None \<Rightarrow> []))"
  by (simp add: close_sockets_def ext_call_sel Let_def split: option.split)

lemma close_sockets_out:
  "out (snd (close_sockets env l s)) =
     out s @ (if fst (close_sockets env l s) = None then [l] else [])"
  by (simp add: close_sockets_def ext_call_sel Let_def split: option.split)

lemma close_sockets_keeps:
  "running (snd (close_sockets env l s)) = running s"
  "socket (snd (close_sockets env l s)) = socket s"
  "connection (snd (close_sockets env l s)) = connection s"
  "in_call (snd (close_sockets env l s)) = in_call s"
  by (simp_all add: close_sockets_def ext_call_sel Let_def split: option.split)

lemma start_cleanup_trace:
  "trace (snd (start_cleanup env s)) = trace s @ until_fault env (releases s)"
  by (simp add: start_cleanup_def ext_call_sel releases_def close_sockets_trace
      split: option.split)

lemma start_cleanup_result:
  "fst (start_cleanup env s) = first_fault env (releases s)"
  by (simp add: start_cleanup_def ext_call_sel releases_def close_sockets_result
      split: option.split)

lemma start_cleanup_out:
  "out (snd (start_cleanup env s)) =
     out s @ (if fst (start_cleanup env s) = None then [ProgramShutdownComplete] else [])"
  by (simp add: start_cleanup_def ext_call_sel close_sockets_out split: option.split)

lemma start_cleanup_keeps:
  "running (snd (start_cleanup env s)) = False"
  "socket (snd (start_cleanup env s)) = socket s"
  "connection (snd (start_cleanup env s)) = connection s"
  "in_call (snd (start_cleanup env s)) = in_call s"
  by (simp_all add: start_cleanup_def ext_call_sel close_sockets_keeps split: option.split)

lemma no_fault_all:
  assumes "\<forall>c \<in> set cs. fault env c = None"
  shows "until_fault env cs = cs" and "first_fault env cs = None"
  using assms by (induction cs) simp_all

text \<open>
  Claim C5, as stated, fails. The releases of lines 332-338 are consecutive statements with
  no \<^verbatim>\<open>try\<close> around any of them, so a release that raises ends the clean-up. Here a host
  has a listening socket and an accepted connection and \<^verbatim>\<open>cv2.destroyAllWindows\<close> raises:
  the camera is released, the exception leaves \<^verbatim>\<open>start\<close>, and neither the connection nor
  the socket is closed.
\<close>

theorem cleanup_skips_sockets:
  "fst (start_cleanup headless_env demo_host) = Some (OtherError ''cv2.error'')
   \<and> trace (snd (start_cleanup headless_env demo_host)) = [CapRelease, DestroyAllWindows]
   \<and> connection (snd (start_cleanup headless_env demo_host)) = Some Accepted
   \<and> socket (snd (start_cleanup headless_env demo_host)) = Some Listener
   \<and> Sock (Close Accepted) \<notin> set (trace (snd (start_cleanup headless_env demo_host)))
   \<and> Sock (Close Listener) \<notin> set (trace (snd (start_cleanup headless_env demo_host)))"
proof -
  have f: "fault headless_env CapRelease = None"
    "fault headless_env DestroyAllWindows = Some (OtherError ''cv2.error'')"
    by (simp_all add: headless_env_def plain_env_def)
  have s: "connection demo_host = Some Accepted" "socket demo_host = Some Listener"
    "trace demo_host = []"
    by (simp_all add: demo_host_def fresh_def)
  show ?thesis
    by (simp add: start_cleanup_trace start_cleanup_result start_cleanup_keeps releases_def f s)
qed

text \<open>
  Claim C5, amended. The clean-up at the end of \<^verbatim>\<open>start\<close> clears the running flag and
  then releases the camera, the windows, the audio device, the connection if there is one and
  the socket if there is one, in this order, up to and including the first release that
  raises; the exception of that release leaves \<^verbatim>\<open>start\<close> and the later releases are not
  made. When no release raises, all of them are made in this order and the shutdown line is
  printed.
\<close>

theorem cleanup_stops_at_first_failure:
  "trace (snd (start_cleanup env s)) = trace s @ until_fault env (releases s)
   \<and> fst (start_cleanup env s) = first_fault env (releases s)
   \<and> running (snd (start_cleanup env s)) = False
   \<and> out (snd (start_cleanup env s)) =
       out s @ (if first_fault env (releases s) = None then [ProgramShutdownComplete] else [])
   \<and> ((\<forall>c \<in> set (releases s). fault env c = None) \<longrightarrow>
         trace (snd (start_cleanup env s)) = trace s @ releases s
       \<and> fst (start_cleanup env s) = None)"
  by (simp add: start_cleanup_trace start_cleanup_result start_cleanup_keeps start_cleanup_out
      no_fault_all)

theorem cleanup_stops_at_first_failure_witness:
  "trace (snd (start_cleanup plain_env demo_host)) =
     [CapRelease, DestroyAllWindows, PygameQuit, Sock (Close Accepted), Sock (Close Listener)]
   \<and> fst (start_cleanup plain_env demo_host) = None
   \<and> running (snd (start_cleanup plain_env demo_host)) = False
   \<and> out (snd (start_cleanup plain_env demo_host)) = [ProgramShutdownComplete]"
proof -
  have f: "\<forall>c \<in> set (releases demo_host). fault plain_env c = None"
    by (simp add: plain_env_def)
  have s: "releases demo_host =
      [CapRelease, DestroyAllWindows, PygameQuit, Sock (Close Accepted), Sock (Close Listener)]"
    "trace demo_host = []" "out demo_host = []"
    by (simp_all add: releases_def demo_host_def fresh_def)
  show ?thesis
    using cleanup_stops_at_first_failure [of plain_env demo_host] f s
      no_fault_all(2) [OF f]
    by simp
qed

section \<open>A run of the local demo\<close>

lemma quietI:
  assumes "in_call s' = in_call s" "socket s' = socket s" "connection s' = connection s"
    "trace s' = trace s @ cs" "sock_ops cs = []"
  shows "quiet s s'"
  using assms unfolding quiet_def by blast

lemma quiet_refl: "quiet s s"
  by (rule quietI [of _ _ "[]"]) simp_all

lemma quiet_trans:
  assumes "quiet s s1" and "quiet s1 s2"
  shows "quiet s s2"
proof -
  obtain cs where 1: "trace s1 = trace s @ cs" "sock_ops cs = []"
    using assms(1) unfolding quiet_def by blast
  obtain cs' where 2: "trace s2 = trace s1 @ cs'" "sock_ops cs' = []"
    using assms(2) unfolding quiet_def by blast
  show ?thesis
  proof (rule quietI [of _ _ "cs @ cs'"])
    show "trace s2 = trace s @ cs @ cs'" using 1 2 by simp
    show "sock_ops (cs @ cs') = []" using 1 2 by (simp add: sock_ops_append)
  qed (use assms in \<open>simp_all add: quiet_def\<close>)
qed

lemma audio_quiet: "quiet s (audio_capture_step s)"
  by (rule quietI [of _ _ "[MicListen]"])
    (simp_all add: audio_capture_step_def Let_def split: list.split sum.split)

lemma recognition_quiet: "quiet s (speech_recognition_step env s)"
proof (cases "audio_queue s")
  case Nil
  then show ?thesis by (simp add: speech_recognition_step_def quiet_refl)
next
  case (Cons audio rest)
  show ?thesis
    by (rule quietI [of _ _ "[RecognizeGoogle audio (source_lang s)]"])
      (simp_all add: speech_recognition_step_def Let_def Cons split: sum.split)
qed

lemma translation_quiet: "quiet s (translation_step env s)"
  unfolding quiet_def
  by (simp add: translation_step_def Let_def split: list.split sum.split option.split)

lemma video_quiet: "quiet s (video_capture_step env s)"
  unfolding quiet_def
  by (simp add: video_capture_step_def split_def Let_def split: option.split list.split)

lemma network_quiet:
  assumes "\<not> in_call s"
  shows "network_thread env s = Some (Returned, s)"
  using assms by (simp add: network_thread_def)

lemma thread_step_quiet:
  assumes "thread_step env s s'" and "\<not> in_call s"
  shows "quiet s s'"
  using assms
proof (cases rule: thread_step.cases)
  case audio
  then show ?thesis by (simp add: audio_quiet)
next
  case recognition
  then show ?thesis by (simp add: recognition_quiet)
next
  case translation
  then show ?thesis by (simp add: translation_quiet)
next
  case video
  then show ?thesis by (simp add: video_quiet)
next
  case (network r)
  then show ?thesis using assms(2) by (simp add: network_quiet quiet_refl)
qed

lemma run_quiet:
  assumes "(thread_step env)\<^sup>*\<^sup>* s s'" and "\<not> in_call s"
  shows "quiet s s'"
  using assms
proof (induction rule: rtranclp_induct)
  case base
  show ?case by (rule quiet_refl)
next
  case (step y z)
  have q: "quiet s y" using step by simp
  then have "\<not> in_call y" using step.prems by (simp add: quiet_def)
  then have "quiet y z" using step.hyps(2) by (rule thread_step_quiet [rotated])
  then show ?case by (rule quiet_trans [OF q])
qed

lemma start_cleanup_quiet:
  assumes "socket s = None" and "connection s = None"
  shows "quiet s (snd (start_cleanup env s))"
proof (rule quietI [of _ _ "until_fault env [CapRelease, DestroyAllWindows, PygameQuit]"])
  show "trace (snd (start_cleanup env s)) =
          trace s @ until_fault env [CapRelease, DestroyAllWindows, PygameQuit]"
    using assms by (simp add: start_cleanup_trace releases_def)
  show "sock_ops (until_fault env [CapRelease, DestroyAllWindows, PygameQuit]) = []"
    by (simp split: option.split)
qed (simp_all add: start_cleanup_keeps)

text \<open>
  Claim C6. Take a run of \<^verbatim>\<open>start\<close> from a state in which no call is active and there
  is neither socket nor connection, as \<^verbatim>\<open>__init__\<close> and the local demo option of
  \<^verbatim>\<open>setup_call\<close> leave it. The network thread returns at once and leaves the state as it
  is. Whatever the other threads do and whichever releases of the clean-up raise, the calls
  made during the run, clean-up included, contain no socket call: no socket is created,
  bound, connected, sent on, received on or closed. At the end the socket and the connection
  are still \<^verbatim>\<open>None\<close>.
\<close>

theorem local_demo_no_socket_ops:
  assumes "\<not> in_call s0" and "socket s0 = None" and "connection s0 = None"
    and "full_run env s0 (r, s')"
  shows "network_thread env (s0\<lparr>running := True\<rparr>) = Some (Returned, s0\<lparr>running := True\<rparr>)
       \<and> (\<exists>cs. trace s' = trace s0 @ cs \<and> sock_ops cs = [])
       \<and> socket s' = None \<and> connection s' = None \<and> \<not> in_call s'"
proof -
  let ?s = "s0\<lparr>running := True\<rparr>"
  from assms(4) obtain s where run: "(thread_step env)\<^sup>*\<^sup>* ?s s"
    and res: "(r, s') = start_cleanup env s"
    by (cases rule: full_run.cases) simp
  have q1: "quiet ?s s" using run assms(1) by (intro run_quiet) simp_all
  have none: "socket s = None" "connection s = None"
    using q1 assms(2,3) by (simp_all add: quiet_def)
  have q2: "quiet s (snd (start_cleanup env s))"
    by (rule start_cleanup_quiet [OF none])
  have q: "quiet ?s s'"
    using quiet_trans [OF q1 q2] res [symmetric] by simp
  have nt: "network_thread env ?s = Some (Returned, ?s)"
    using assms(1) by (intro network_quiet) simp
  show ?thesis
    using q nt assms(1,2,3) by (simp add: quiet_def)
qed

theorem local_demo_no_socket_ops_witness:
  "\<not> in_call demo_local \<and> socket demo_local = None \<and> connection demo_local = None
   \<and> full_run plain_env demo_local
        (start_cleanup plain_env
           (video_capture_step plain_env (audio_capture_step (demo_local\<lparr>running := True\<rparr>))))
   \<and> trace (snd (start_cleanup plain_env
         (video_capture_step plain_env (audio_capture_step (demo_local\<lparr>running := True\<rparr>))))) =
       [MicListen, CapRead, Imshow VideoTranslator [1, 2], WaitKey,
        CapRelease, DestroyAllWindows, PygameQuit]
   \<and> sock_ops (trace (snd (start_cleanup plain_env
         (video_capture_step plain_env (audio_capture_step (demo_local\<lparr>running := True\<rparr>)))))) = []
   \<and> running (video_capture_step plain_env (audio_capture_step (demo_local\<lparr>running := True\<rparr>)))
       = False"
proof -
  let ?s0 = "demo_local\<lparr>running := True\<rparr>"
  let ?s1 = "audio_capture_step ?s0"
  let ?s2 = "video_capture_step plain_env ?s1"
  let ?x = "start_cleanup plain_env ?s2"
  have f: "\<not> in_call demo_local" "socket demo_local = None" "connection demo_local = None"
    "trace demo_local = []" "mic demo_local = [Inr [104, 105]]"
    "camera demo_local = [Some [1, 2]]" "keys demo_local = [113]"
    "text_queue demo_local = []" "translation_queue demo_local = []"
    "remote_frame demo_local = None"
    by (simp_all add: demo_local_def fresh_def)
  have a1: "running ?s1" "\<not> in_call ?s1" "trace ?s1 = [MicListen]"
    "camera ?s1 = Some [1, 2] # []" "text_queue ?s1 = []" "translation_queue ?s1 = []"
    "remote_frame ?s1 = None" "keys ?s1 = [113]" "socket ?s1 = None" "connection ?s1 = None"
    by (simp_all add: audio_capture_step_def Let_def f)
  have st1: "thread_step plain_env ?s0 ?s1"
    by (rule thread_step.audio) simp
  have st2: "thread_step plain_env ?s1 ?s1"
    by (rule thread_step.network [of _ _ Returned]) (simp add: network_quiet a1)
  have st3: "thread_step plain_env ?s1 ?s2"
    by (rule thread_step.video) (rule a1)
  have run: "(thread_step plain_env)\<^sup>*\<^sup>* ?s0 ?s2"
    using st1 st2 st3 by (meson rtranclp.rtrancl_into_rtrancl rtranclp.rtrancl_refl)
  have fr: "full_run plain_env demo_local ?x"
    by (rule full_run.intros [OF run])
  then have fr': "full_run plain_env demo_local (fst ?x, snd ?x)" by simp
  have t2: "trace ?s2 = [MicListen, CapRead, Imshow VideoTranslator [1, 2], WaitKey]"
    using video_step_trace [OF a1(4), of plain_env] a1
    by (simp add: overlay_text_def overlay_translation_def plain_env_def)
  have r2: "running ?s2 = False"
    by (simp add: video_capture_step_def check_quit_def split_def Let_def a1)
  have c2: "socket ?s2 = None" "connection ?s2 = None"
    by (simp_all add: video_capture_step_def split_def Let_def a1)
  have pf: "fault plain_env c = None" for c
    by (simp add: plain_env_def)
  have tx: "trace (snd ?x) =
      [MicListen, CapRead, Imshow VideoTranslator [1, 2], WaitKey,
       CapRelease, DestroyAllWindows, PygameQuit]"
    by (simp add: start_cleanup_trace releases_def t2 c2 pf)
  show ?thesis
    using local_demo_no_socket_ops [OF f(1) f(2) f(3) fr'] fr tx r2 f
    by (simp add: sock_ops_append)
qed

end
